theory Spec2Isabelle
  imports Main
begin

section \<open>Data model\<close>

text \<open>
  The board synchronisation core of the task manager: the component \<open>TaskManager\<close>
  (state hooks \<open>columns\<close>, \<open>tasks\<close>, \<open>subtasks\<close>, the drag handlers, \<open>loadBoardData\<close>,
  \<open>createTask\<close>) and the drawer \<open>TaskDetailDrawer\<close> (\<open>handleSave\<close>, \<open>toggleSubtask\<close>,
  \<open>addSubtask\<close>). Identifiers and timestamps are strings, \<open>position\<close> is a number
  that the code only ever fills with list lengths and literals, read here as \<open>int\<close>.
\<close>

text \<open>
  The \<open>completed\<close> field is declared \<open>boolean\<close>, but \<open>toggleSubtask\<close> writes the numbers
  \<open>1\<close> and \<open>0\<close> into it while \<open>addSubtask\<close> and \<open>createTask\<close> write \<open>false\<close>; the field
  therefore holds a boolean or a number.
\<close>

datatype jsval = JBool bool | JNum int

record user_rec =
  u_id :: string
  u_email :: string
  u_displayName :: "string option"

record board =
  b_id :: string
  b_name :: string
  b_description :: "string option"
  b_userId :: string
  b_isShared :: bool
  b_isArchived :: bool

record column =
  c_id :: string
  c_name :: string
  c_boardId :: string
  c_position :: int
  c_color :: string

text \<open>A task as the cache holds it: \<open>tags\<close> is an array of strings.\<close>

record task =
  t_id :: string
  t_title :: string
  t_description :: "string option"
  t_columnId :: string
  t_boardId :: string
  t_userId :: string
  t_position :: int
  t_dueDate :: "string option"
  t_completed :: jsval
  t_tags :: "string list"
  t_createdAt :: "string option"
  t_updatedAt :: "string option"

text \<open>
  A task as the remote store holds it: \<open>tags\<close> is the encoded string (\<open>createTask\<close> writes
  \<open>'[]'\<close>, \<open>handleSave\<close> writes \<open>JSON.stringify(tags)\<close>), absent when never written.
\<close>

record task_row =
  r_id :: string
  r_title :: string
  r_description :: "string option"
  r_columnId :: string
  r_boardId :: string
  r_userId :: string
  r_position :: int
  r_dueDate :: "string option"
  r_completed :: jsval
  r_tags :: "string option"
  r_createdAt :: "string option"
  r_updatedAt :: "string option"

record subtask =
  s_id :: string
  s_title :: string
  s_taskId :: string
  s_completed :: jsval
  s_position :: int

datatype variant = Default | Destructive

text \<open>
  A call of \<open>toast\<close> (hooks/use-toast.ts): the message is shown with \<open>alert\<close> whatever
  the variant; \<open>variant\<close> defaults to \<open>'default'\<close>.
\<close>

record toast_rec =
  title :: string
  description :: "string option"
  variant :: variant

section \<open>The remote store\<close>

text \<open>The argument of a \<open>list\<close> call: an optional \<open>where: { boardId }\<close>; every call of
  the source orders by \<open>position\<close> ascending.\<close>

record query =
  where_boardId :: "string option"

text \<open>The partial record of \<open>blink.db.tasks.update\<close>: a field is \<open>None\<close> when the call
  does not mention it; \<open>description\<close> and \<open>dueDate\<close> can be set to \<open>null\<close>.\<close>

record task_patch =
  p_title :: "string option"
  p_description :: "string option option"
  p_dueDate :: "string option option"
  p_tags :: "string option"
  p_columnId :: "string option"
  p_updatedAt :: "string option"

datatype db_call =
    ColumnsList query
  | TasksList query
  | SubtasksList query
  | TasksCreate task_row
  | TasksUpdate string task_patch
  | SubtasksCreate subtask
  | SubtasksUpdate string jsval

fun is_write :: "db_call \<Rightarrow> bool" where
  "is_write (ColumnsList q) = False"
| "is_write (TasksList q) = False"
| "is_write (SubtasksList q) = False"
| "is_write (TasksCreate r) = True"
| "is_write (TasksUpdate i p) = True"
| "is_write (SubtasksCreate s) = True"
| "is_write (SubtasksUpdate i v) = True"

definition durable_writes :: "db_call list \<Rightarrow> db_call list" where
  "durable_writes calls = filter is_write calls"

text \<open>Modelled from the spec: the Remote Store Client is an external service, not code of
  the repository (spec section 6: \<open>list(filter, orderBy)\<close>, \<open>create(record)\<close>,
  \<open>update(id, partialRecord)\<close>, each returning success or a store-level failure). The store
  holds the rows of the three tables. \<open>list\<close> answers the rows that satisfy the filter, in
  ascending \<open>position\<close>; a subtask row has no \<open>boardId\<close>, so a subtask query has nothing to
  filter on. \<open>create\<close> adds a row; \<open>update\<close> overwrites the mentioned fields of the rows
  with the given \<open>id\<close>. Whether a call succeeds is decided by the surroundings (see \<open>env\<close>);
  a call that fails leaves the store as it is.\<close>

record remote_store =
  db_columns :: "column list"
  db_tasks :: "task_row list"
  db_subtasks :: "subtask list"

definition matches :: "query \<Rightarrow> string \<Rightarrow> bool" where
  "matches q b = (case where_boardId q of None \<Rightarrow> True | Some b' \<Rightarrow> b = b')"

definition columns_list :: "query \<Rightarrow> remote_store \<Rightarrow> column list" where
  "columns_list q d = sort_key c_position (filter (\<lambda>c. matches q (c_boardId c)) (db_columns d))"

definition tasks_list :: "query \<Rightarrow> remote_store \<Rightarrow> task_row list" where
  "tasks_list q d = sort_key r_position (filter (\<lambda>r. matches q (r_boardId r)) (db_tasks d))"

definition subtasks_list :: "remote_store \<Rightarrow> subtask list" where
  "subtasks_list d = sort_key s_position (db_subtasks d)"

definition apply_patch :: "task_patch \<Rightarrow> task_row \<Rightarrow> task_row" where
  "apply_patch p r =
     r\<lparr> r_title := (case p_title p of None \<Rightarrow> r_title r | Some v \<Rightarrow> v),
        r_description := (case p_description p of None \<Rightarrow> r_description r | Some v \<Rightarrow> v),
        r_dueDate := (case p_dueDate p of None \<Rightarrow> r_dueDate r | Some v \<Rightarrow> v),
        r_tags := (case p_tags p of None \<Rightarrow> r_tags r | Some v \<Rightarrow> Some v),
        r_columnId := (case p_columnId p of None \<Rightarrow> r_columnId r | Some v \<Rightarrow> v),
        r_updatedAt := (case p_updatedAt p of None \<Rightarrow> r_updatedAt r | Some v \<Rightarrow> Some v) \<rparr>"

definition store_tasks_update :: "string \<Rightarrow> task_patch \<Rightarrow> remote_store \<Rightarrow> remote_store" where
  "store_tasks_update i p d =
     d\<lparr> db_tasks := map (\<lambda>r. if r_id r = i then apply_patch p r else r) (db_tasks d) \<rparr>"

definition store_tasks_create :: "task_row \<Rightarrow> remote_store \<Rightarrow> remote_store" where
  "store_tasks_create r d = d\<lparr> db_tasks := db_tasks d @ [r] \<rparr>"

definition store_subtasks_create :: "subtask \<Rightarrow> remote_store \<Rightarrow> remote_store" where
  "store_subtasks_create s d = d\<lparr> db_subtasks := db_subtasks d @ [s] \<rparr>"

definition store_subtasks_update :: "string \<Rightarrow> jsval \<Rightarrow> remote_store \<Rightarrow> remote_store" where
  "store_subtasks_update i v d =
     d\<lparr> db_subtasks := map (\<lambda>s. if s_id s = i then s\<lparr> s_completed := v \<rparr> else s) (db_subtasks d) \<rparr>"

section \<open>The component state and its surroundings\<close>

text \<open>
  The state hooks of \<open>TaskManager\<close> that the handlers read and write, together with what
  the handlers act on outside the component: the remote store, the calls issued to it (in
  order, whether they succeed or not) and the notifications shown.
\<close>

record world =
  user :: "user_rec option"
  currentBoard :: "board option"
  columns :: "column list"
  tasks :: "task list"
  subtasks :: "subtask list"
  selectedTask :: "task option"
  activeId :: "string option"
  db :: remote_store
  db_log :: "db_call list"
  toasts :: "toast_rec list"

datatype js_error = SyntaxError

text \<open>
  What one run of a handler receives from outside the repository: the engine's
  \<open>JSON.parse\<close> seen at the type the source gives its result (\<open>string[]\<close>; \<open>Inl\<close> is a
  throw), the clock (\<open>Date.now()\<close> and \<open>new Date().toISOString()\<close>), and whether the
  store answers the write and each of the three reads of this run.
\<close>

record env =
  JSON_parse :: "string \<Rightarrow> js_error + string list"
  Date_now :: int
  now_iso :: string
  write_ok :: bool
  columns_ok :: bool
  tasks_ok :: bool
  subtasks_ok :: bool

record drag_event =
  active :: string
  over :: "string option"

section \<open>Drag handlers\<close>

text \<open>\<open>handleDragStart\<close>: \<open>setActiveId(event.active.id)\<close>.\<close>

definition handleDragStart :: "drag_event \<Rightarrow> world \<Rightarrow> world" where
  "handleDragStart ev w = w\<lparr> activeId := Some (active ev) \<rparr>"

text \<open>
  The column under the pointer in \<open>handleDragOver\<close>:
  \<^verbatim>\<open>columns.find(col => col.id === overId) ||
  columns.find(col => tasks.find(task => task.id === overId)?.columnId === col.id)\<close>
\<close>

definition overColumn :: "string \<Rightarrow> world \<Rightarrow> column option" where
  "overColumn overId w =
     (case find (\<lambda>col. c_id col = overId) (columns w) of
        Some col \<Rightarrow> Some col
      | None \<Rightarrow>
          find (\<lambda>col. case find (\<lambda>task. t_id task = overId) (tasks w) of
                         None \<Rightarrow> False
                       | Some task \<Rightarrow> t_columnId task = c_id col) (columns w))"

definition handleDragOver :: "drag_event \<Rightarrow> world \<Rightarrow> world" where
  "handleDragOver ev w =
     (case over ev of
        None \<Rightarrow> w
      | Some overId \<Rightarrow>
          (case find (\<lambda>task. t_id task = active ev) (tasks w) of
             None \<Rightarrow> w
           | Some activeTask \<Rightarrow>
               (case overColumn overId w of
                  None \<Rightarrow> w
                | Some oc \<Rightarrow>
                    if t_columnId activeTask = c_id oc then w
                    else w\<lparr> tasks := map (\<lambda>task. if t_id task = active ev
                                                  then task\<lparr> t_columnId := c_id oc \<rparr>
                                                  else task) (tasks w) \<rparr>)))"

section \<open>Tag encoding\<close>

text \<open>
  \<open>JSON.stringify\<close> on an array of strings, as \<open>handleSave\<close> calls it (no indentation
  argument): the members quoted, separated by commas, in brackets. Quoting escapes the
  double quote, the backslash and the code units below \<open>0x20\<close> (the short escapes
  \<open>\b \t \n \f \r\<close>, otherwise \<open>\u00xx\<close> in lower-case hexadecimal) and copies
  every other code unit.
\<close>

definition hexdigit :: "nat \<Rightarrow> char" where
  "hexdigit n = (''0123456789abcdef'' ! n)"

definition esc :: "char \<Rightarrow> string" where
  "esc c =
     (if c = CHR 0x22 then [CHR 0x5C, CHR 0x22]
      else if c = CHR 0x5C then [CHR 0x5C, CHR 0x5C]
      else if c = CHR 0x08 then [CHR 0x5C, CHR ''b'']
      else if c = CHR 0x0C then [CHR 0x5C, CHR ''f'']
      else if c = CHR 0x0A then [CHR 0x5C, CHR ''n'']
      else if c = CHR 0x0D then [CHR 0x5C, CHR ''r'']
      else if c = CHR 0x09 then [CHR 0x5C, CHR ''t'']
      else if (of_char c :: nat) < 0x20
        then [CHR 0x5C, CHR ''u'', CHR ''0'', CHR ''0'',
              hexdigit (of_char c div 16), hexdigit (of_char c mod 16)]
      else [c])"

definition quote :: "string \<Rightarrow> string" where
  "quote s = CHR 0x22 # concat (map esc s) @ [CHR 0x22]"

fun join :: "string list \<Rightarrow> string" where
  "join [] = []"
| "join [x] = quote x"
| "join (x # y # ys) = quote x @ CHR '','' # join (y # ys)"

definition JSON_stringify :: "string list \<Rightarrow> string" where
  "JSON_stringify xs = CHR ''['' # join xs @ [CHR '']'']"

text \<open>
  \<open>JSON.parse\<close> on the texts whose value is an array of strings, the grammar of ECMA-404:
  white space (space, tab, line feed, carriage return) around the brackets, the members and
  the commas; inside a string the escapes \<open>\" \\ \/ \b \f \n \r \t \uXXXX\<close>, and no raw
  code unit below \<open>0x20\<close>. Every text outside this grammar is answered with
  \<open>SyntaxError\<close>. Strings are lists of 8-bit characters here, so an escape \<open>\uXXXX\<close> above
  \<open>00FF\<close> has no value in the model and is refused as well; on a JSON text of another type
  (a number, an object) the engine returns a value outside \<open>string[]\<close>, which the model does
  not represent: the handlers below take the engine's function as the parameter
  \<open>JSON_parse\<close> of \<open>env\<close>, and \<open>JSON_parse_array\<close> is the instance used on concrete inputs.
\<close>

definition is_ws :: "char \<Rightarrow> bool" where
  "is_ws c = (c = CHR 0x20 \<or> c = CHR 0x09 \<or> c = CHR 0x0A \<or> c = CHR 0x0D)"

definition skip_ws :: "string \<Rightarrow> string" where
  "skip_ws cs = dropWhile is_ws cs"

definition hexval :: "char \<Rightarrow> nat option" where
  "hexval c =
     (let n = (of_char c :: nat) in
      if 0x30 \<le> n \<and> n \<le> 0x39 then Some (n - 0x30)
      else if 0x61 \<le> n \<and> n \<le> 0x66 then Some (n - 0x61 + 10)
      else if 0x41 \<le> n \<and> n \<le> 0x46 then Some (n - 0x41 + 10)
      else None)"

definition hex4 :: "char \<Rightarrow> char \<Rightarrow> char \<Rightarrow> char \<Rightarrow> nat option" where
  "hex4 a b c d =
     (case (hexval a, hexval b, hexval c, hexval d) of
        (Some x, Some y, Some z, Some u) \<Rightarrow> Some (((x * 16 + y) * 16 + z) * 16 + u)
      | _ \<Rightarrow> None)"

definition unescape :: "char \<Rightarrow> char option" where
  "unescape e =
     (if e = CHR 0x22 then Some (CHR 0x22)
      else if e = CHR 0x5C then Some (CHR 0x5C)
      else if e = CHR ''/'' then Some (CHR ''/'')
      else if e = CHR ''b'' then Some (CHR 0x08)
      else if e = CHR ''f'' then Some (CHR 0x0C)
      else if e = CHR ''n'' then Some (CHR 0x0A)
      else if e = CHR ''r'' then Some (CHR 0x0D)
      else if e = CHR ''t'' then Some (CHR 0x09)
      else None)"

definition consume :: "char \<Rightarrow> (string \<times> string) option \<Rightarrow> (string \<times> string) option" where
  "consume c res = (case res of None \<Rightarrow> None | Some (s, rest) \<Rightarrow> Some (c # s, rest))"

text \<open>The characters of a string after its opening quote, and the text after its closing quote.\<close>

fun read_string :: "string \<Rightarrow> (string \<times> string) option" where
  "read_string [] = None"
| "read_string (c # cs) =
     (if c = CHR 0x22 then Some ([], cs)
      else if c = CHR 0x5C then
        (case cs of
           [] \<Rightarrow> None
         | e # r \<Rightarrow>
             if e = CHR ''u'' then
               (case r of
                  h1 # h2 # h3 # h4 # r' \<Rightarrow>
                    (case hex4 h1 h2 h3 h4 of
                       None \<Rightarrow> None
                     | Some n \<Rightarrow> if n < 256 then consume (char_of n) (read_string r') else None)
                | _ \<Rightarrow> None)
             else
               (case unescape e of
                  None \<Rightarrow> None
                | Some ch \<Rightarrow> consume ch (read_string r)))
      else if (of_char c :: nat) < 0x20 then None
      else consume c (read_string cs))"

lemma read_string_shorter:
  "read_string cs = Some (s, rest) \<Longrightarrow> length rest < length cs"
proof (induction cs arbitrary: s rest rule: read_string.induct)
  case 1
  then show ?case by simp
next
  case (2 c cs)
  then show ?case
    by (fastforce simp: consume_def split: if_splits list.splits option.splits)
qed

lemma skip_ws_length: "length (skip_ws cs) \<le> length cs"
  by (simp add: skip_ws_def length_dropWhile_le)

text \<open>The members of a non-empty array from the opening quote of its first string on, up to
  the closing bracket, and the text after the bracket.\<close>

function read_elems :: "string \<Rightarrow> (string list \<times> string) option" where
  "read_elems [] = None"
| "read_elems (c # body) =
     (if c \<noteq> CHR 0x22 then None
      else
        (case read_string body of
           None \<Rightarrow> None
         | Some (s, rest) \<Rightarrow>
             (case skip_ws rest of
                [] \<Rightarrow> None
              | d # rest' \<Rightarrow>
                  if d = CHR '']'' then Some ([s], rest')
                  else if d = CHR '','' then
                    (case read_elems (skip_ws rest') of
                       None \<Rightarrow> None
                     | Some (xs, rest'') \<Rightarrow> Some (s # xs, rest''))
                  else None)))"
  by pat_completeness auto

termination read_elems
proof (relation "measure length")
  show "wf (measure length)" by simp
next
  fix c :: char and body s rest d rest' x2 xa y
  assume rs: "read_string body = Some x2" and x2: "(xa, y) = x2"
    and sk: "skip_ws y = d # rest'"
  from rs x2 have "length y < length body"
    using read_string_shorter [of body xa y] by simp
  moreover have "length (skip_ws rest') \<le> length rest'"
    by (rule skip_ws_length)
  moreover from sk have "length rest' < length (skip_ws y)" by simp
  moreover have "length (skip_ws y) \<le> length y"
    by (rule skip_ws_length)
  ultimately show "(skip_ws rest', c # body) \<in> measure length" by simp
qed

definition JSON_parse_array :: "string \<Rightarrow> js_error + string list" where
  "JSON_parse_array text =
     (case skip_ws text of
        [] \<Rightarrow> Inl SyntaxError
      | c # r \<Rightarrow>
          if c \<noteq> CHR ''['' then Inl SyntaxError
          else
            (case skip_ws r of
               [] \<Rightarrow> Inl SyntaxError
             | d # r' \<Rightarrow>
                 if d = CHR '']'' then (if skip_ws r' = [] then Inr [] else Inl SyntaxError)
                 else
                   (case read_elems (d # r') of
                      None \<Rightarrow> Inl SyntaxError
                    | Some (xs, r'') \<Rightarrow> if skip_ws r'' = [] then Inr xs else Inl SyntaxError)))"

section \<open>Reconciliation load\<close>

text \<open>\<^verbatim>\<open>task.tags ? JSON.parse(task.tags) : []\<close>: an absent and an empty string are falsy.\<close>

definition decode_tags :: "env \<Rightarrow> string option \<Rightarrow> js_error + string list" where
  "decode_tags e enc =
     (case enc of
        None \<Rightarrow> Inr []
      | Some text \<Rightarrow> if text = [] then Inr [] else JSON_parse e text)"

text \<open>\<^verbatim>\<open>({ ...task, tags: ... })\<close>\<close>

definition decode_row :: "env \<Rightarrow> task_row \<Rightarrow> js_error + task" where
  "decode_row e r =
     (case decode_tags e (r_tags r) of
        Inl err \<Rightarrow> Inl err
      | Inr ts \<Rightarrow>
          Inr \<lparr> t_id = r_id r, t_title = r_title r, t_description = r_description r,
                t_columnId = r_columnId r, t_boardId = r_boardId r, t_userId = r_userId r,
                t_position = r_position r, t_dueDate = r_dueDate r,
                t_completed = r_completed r, t_tags = ts,
                t_createdAt = r_createdAt r, t_updatedAt = r_updatedAt r \<rparr>)"

text \<open>\<open>boardTasks.map(...)\<close>: the rows are decoded in order and the first throw ends the map.\<close>

fun decode_rows :: "env \<Rightarrow> task_row list \<Rightarrow> js_error + task list" where
  "decode_rows e [] = Inr []"
| "decode_rows e (r # rs) =
     (case decode_row e r of
        Inl err \<Rightarrow> Inl err
      | Inr t \<Rightarrow>
          (case decode_rows e rs of
             Inl err \<Rightarrow> Inl err
           | Inr ts \<Rightarrow> Inr (t # ts)))"

definition loading_error :: toast_rec where
  "loading_error =
     \<lparr> title = ''Loading Error'', description = Some ''Failed to load board data'',
       variant = Destructive \<rparr>"

text \<open>
  \<open>loadBoardData\<close>. The three \<open>list\<close> calls are issued together and \<open>Promise.all\<close> rejects
  when one of them does; the \<open>catch\<close> then shows the notification. On success
  \<open>setColumns\<close> is called first; the argument of \<open>setTasks\<close> is computed next, and a throw
  of \<open>JSON.parse\<close> there reaches the same \<open>catch\<close> before \<open>setTasks\<close> and \<open>setSubtasks\<close>
  are called.
\<close>

definition loadBoardData :: "env \<Rightarrow> string \<Rightarrow> world \<Rightarrow> world" where
  "loadBoardData e boardId w =
     (let q = \<lparr> where_boardId = Some boardId \<rparr>;
          w1 = w\<lparr> db_log := db_log w @
                  [ColumnsList q, TasksList q, SubtasksList \<lparr> where_boardId = None \<rparr>] \<rparr>
      in if columns_ok e \<and> tasks_ok e \<and> subtasks_ok e then
           (let boardColumns = columns_list q (db w1);
                boardTasks = tasks_list q (db w1);
                allSubtasks = subtasks_list (db w1);
                w2 = w1\<lparr> columns := boardColumns \<rparr>
            in case decode_rows e boardTasks of
                 Inl err \<Rightarrow> w2\<lparr> toasts := toasts w2 @ [loading_error] \<rparr>
               | Inr ts \<Rightarrow> w2\<lparr> tasks := ts, subtasks := allSubtasks \<rparr>)
         else w1\<lparr> toasts := toasts w1 @ [loading_error] \<rparr>)"

text \<open>The load completes: the three reads are answered and every row's tags decode.\<close>

definition load_completes :: "env \<Rightarrow> string \<Rightarrow> remote_store \<Rightarrow> bool" where
  "load_completes e boardId d =
     (columns_ok e \<and> tasks_ok e \<and> subtasks_ok e \<and>
      (case decode_rows e (tasks_list \<lparr> where_boardId = Some boardId \<rparr> d) of
         Inl err \<Rightarrow> False
       | Inr ts \<Rightarrow> True))"

section \<open>Committing a drag\<close>

definition update_error :: toast_rec where
  "update_error =
     \<lparr> title = ''Update Error'', description = Some ''Failed to move task'',
       variant = Destructive \<rparr>"

text \<open>\<^verbatim>\<open>if (currentBoard) { loadBoardData(currentBoard.id) }\<close>\<close>

definition reload :: "env \<Rightarrow> world \<Rightarrow> world" where
  "reload e w =
     (case currentBoard w of
        None \<Rightarrow> w
      | Some b \<Rightarrow> loadBoardData e (b_id b) w)"

text \<open>
  \<open>handleDragEnd\<close>. The constant \<open>overId\<close> of the source is computed and never read.
  The update writes the \<open>columnId\<close> that the cached task has at the drop.
\<close>

definition handleDragEnd :: "env \<Rightarrow> drag_event \<Rightarrow> world \<Rightarrow> world" where
  "handleDragEnd e ev w =
     (let w0 = w\<lparr> activeId := None \<rparr>
      in case over ev of
           None \<Rightarrow> w0
         | Some overId \<Rightarrow>
             (case find (\<lambda>task. t_id task = active ev) (tasks w0) of
                None \<Rightarrow> w0
              | Some activeTask \<Rightarrow>
                  (let patch = \<lparr> p_title = None, p_description = None, p_dueDate = None,
                                 p_tags = None, p_columnId = Some (t_columnId activeTask),
                                 p_updatedAt = Some (now_iso e) \<rparr>;
                       w1 = w0\<lparr> db_log := db_log w0 @ [TasksUpdate (active ev) patch] \<rparr>
                   in if write_ok e
                      then reload e (w1\<lparr> db := store_tasks_update (active ev) patch (db w1) \<rparr>)
                      else reload e (w1\<lparr> toasts := toasts w1 @ [update_error] \<rparr>))))"

text \<open>
  One drag as \<open>DndContext\<close> delivers it: \<open>onDragStart\<close>, one \<open>onDragOver\<close> for every change
  of the target under the pointer (\<open>over\<close> is \<open>null\<close> when there is none), \<open>onDragEnd\<close> with
  the target of the drop.
\<close>

definition hovering :: "string \<Rightarrow> string option list \<Rightarrow> world \<Rightarrow> world" where
  "hovering a hovers w =
     foldl (\<lambda>w' target. handleDragOver \<lparr> active = a, over = target \<rparr> w')
       (handleDragStart \<lparr> active = a, over = None \<rparr> w) hovers"

definition drag_gesture :: "env \<Rightarrow> string \<Rightarrow> string option list \<Rightarrow> string option \<Rightarrow> world \<Rightarrow> world" where
  "drag_gesture e a hovers target w =
     handleDragEnd e \<lparr> active = a, over = target \<rparr> (hovering a hovers w)"

text \<open>The task-to-column assignment of the cache and of a board in the store.\<close>

definition cache_assignment :: "world \<Rightarrow> (string \<times> string) list" where
  "cache_assignment w = map (\<lambda>task. (t_id task, t_columnId task)) (tasks w)"

definition store_assignment :: "string \<Rightarrow> remote_store \<Rightarrow> (string \<times> string) list" where
  "store_assignment boardId d =
     map (\<lambda>r. (r_id r, r_columnId r)) (tasks_list \<lparr> where_boardId = Some boardId \<rparr> d)"

section \<open>Creating a task\<close>

text \<open>The decimal text of an integer, as a template literal prints \<open>Date.now()\<close>.\<close>

function show_digits :: "int \<Rightarrow> string" where
  "show_digits n =
     (if n < 10 then [char_of (48 + n)]
      else show_digits (n div 10) @ [char_of (48 + n mod 10)])"
  by pat_completeness auto

termination show_digits
  by (relation "measure nat") auto

definition show_int :: "int \<Rightarrow> string" where
  "show_int n = (if n < 0 then CHR ''-'' # show_digits (- n) else show_digits n)"

text \<open>\<^verbatim>\<open>columnId || columns[0]?.id\<close>: an absent and an empty \<open>columnId\<close> are falsy; the
  result is \<open>None\<close> for \<open>undefined\<close>.\<close>

definition targetColumnId :: "string option \<Rightarrow> column list \<Rightarrow> string option" where
  "targetColumnId columnId cols =
     (let first = (case cols of [] \<Rightarrow> None | col # rest \<Rightarrow> Some (c_id col))
      in case columnId of
           None \<Rightarrow> first
         | Some c \<Rightarrow> if c = [] then first else Some c)"

definition task_created :: "string \<Rightarrow> toast_rec" where
  "task_created ttl =
     \<lparr> title = ''Task created'',
       description = Some (CHR 0x22 # ttl @ CHR 0x22 # '' has been added to your board''),
       variant = Default \<rparr>"

definition creation_error :: toast_rec where
  "creation_error =
     \<lparr> title = ''Creation Error'', description = Some ''Failed to create task'',
       variant = Destructive \<rparr>"

text \<open>
  \<open>createTask\<close>. The load after the write is started and not awaited: its three reads are
  issued at once, its continuation runs after \<open>createTask\<close> has shown its own notification,
  so that notification comes first in \<open>toasts\<close>.
\<close>

definition createTask :: "env \<Rightarrow> string \<Rightarrow> string option \<Rightarrow> world \<Rightarrow> world" where
  "createTask e ttl columnId w =
     (case user w of
        None \<Rightarrow> w
      | Some u \<Rightarrow>
          (case currentBoard w of
             None \<Rightarrow> w
           | Some b \<Rightarrow>
               (case targetColumnId columnId (columns w) of
                  None \<Rightarrow> w
                | Some tc \<Rightarrow>
                    if tc = [] then w
                    else
                      (let newTask =
                             \<lparr> r_id = ''task_'' @ show_int (Date_now e), r_title = ttl,
                               r_description = None, r_columnId = tc, r_boardId = b_id b,
                               r_userId = u_id u,
                               r_position = int (length (filter (\<lambda>t. t_columnId t = tc) (tasks w))),
                               r_dueDate = None, r_completed = JBool False,
                               r_tags = Some ''[]'', r_createdAt = None, r_updatedAt = None \<rparr>;
                           w1 = w\<lparr> db_log := db_log w @ [TasksCreate newTask] \<rparr>
                       in if write_ok e
                          then loadBoardData e (b_id b)
                                 (w1\<lparr> db := store_tasks_create newTask (db w1),
                                      toasts := toasts w1 @ [task_created ttl] \<rparr>)
                          else w1\<lparr> toasts := toasts w1 @ [creation_error] \<rparr>))))"

section \<open>The task drawer\<close>

text \<open>
  \<open>TaskDetailDrawer\<close> is rendered for \<open>selectedTask\<close> with the props
  \<^verbatim>\<open>subtasks={subtasks.filter(st => st.taskId === selectedTask.id)}\<close> and
  \<open>onUpdate\<close> = \<open>reload\<close>. Its own state hooks are below; a due date is kept as the text that
  \<open>toISOString\<close> gives.
\<close>

record drawer =
  d_isEditing :: bool
  d_title :: string
  d_description :: string
  d_dueDate :: "string option"
  d_tags :: "string list"
  d_newSubtaskTitle :: string

definition drawer_subtasks :: "task \<Rightarrow> world \<Rightarrow> subtask list" where
  "drawer_subtasks task w = filter (\<lambda>st. s_taskId st = t_id task) (subtasks w)"

definition task_updated :: toast_rec where
  "task_updated =
     \<lparr> title = ''Task updated'', description = Some ''Your changes have been saved'',
       variant = Default \<rparr>"

definition save_failed :: toast_rec where
  "save_failed =
     \<lparr> title = ''Update failed'', description = Some ''Failed to save changes'',
       variant = Destructive \<rparr>"

text \<open>\<open>handleSave\<close>: \<open>description || null\<close> turns the empty text into \<open>null\<close>; the tags are
  written as \<open>JSON.stringify(tags)\<close>. As in \<open>createTask\<close>, the notification of the handler
  precedes the continuation of the load that \<open>onUpdate\<close> starts.\<close>

definition handleSave :: "env \<Rightarrow> drawer \<Rightarrow> world \<Rightarrow> drawer \<times> world" where
  "handleSave e d w =
     (case selectedTask w of
        None \<Rightarrow> (d, w)
      | Some task \<Rightarrow>
          (let patch = \<lparr> p_title = Some (d_title d),
                         p_description =
                           Some (if d_description d = [] then None else Some (d_description d)),
                         p_dueDate = Some (d_dueDate d),
                         p_tags = Some (JSON_stringify (d_tags d)),
                         p_columnId = None,
                         p_updatedAt = Some (now_iso e) \<rparr>;
               w1 = w\<lparr> db_log := db_log w @ [TasksUpdate (t_id task) patch] \<rparr>
           in if write_ok e
              then (d\<lparr> d_isEditing := False \<rparr>,
                    reload e (w1\<lparr> db := store_tasks_update (t_id task) patch (db w1),
                                  toasts := toasts w1 @ [task_updated] \<rparr>))
              else (d, w1\<lparr> toasts := toasts w1 @ [save_failed] \<rparr>)))"

definition subtask_update_failed :: toast_rec where
  "subtask_update_failed =
     \<lparr> title = ''Update failed'', description = Some ''Failed to update subtask'',
       variant = Destructive \<rparr>"

text \<open>\<open>toggleSubtask\<close>: \<^verbatim>\<open>completed: completed ? 1 : 0\<close>\<close>

definition toggleSubtask :: "env \<Rightarrow> string \<Rightarrow> bool \<Rightarrow> world \<Rightarrow> world" where
  "toggleSubtask e subtaskId completed w =
     (let v = JNum (if completed then 1 else 0);
          w1 = w\<lparr> db_log := db_log w @ [SubtasksUpdate subtaskId v] \<rparr>
      in if write_ok e
         then reload e (w1\<lparr> db := store_subtasks_update subtaskId v (db w1) \<rparr>)
         else w1\<lparr> toasts := toasts w1 @ [subtask_update_failed] \<rparr>)"

text \<open>\<open>String.prototype.trim\<close> on 8-bit code units: tab, line feed, vertical tab, form feed,
  carriage return, space and no-break space are removed from both ends.\<close>

definition is_space :: "char \<Rightarrow> bool" where
  "is_space c = ((of_char c :: nat) \<in> {0x09, 0x0A, 0x0B, 0x0C, 0x0D, 0x20, 0xA0})"

definition trim :: "string \<Rightarrow> string" where
  "trim s = rev (dropWhile is_space (rev (dropWhile is_space s)))"

definition subtask_added :: toast_rec where
  "subtask_added =
     \<lparr> title = ''Subtask added'', description = Some ''New subtask has been created'',
       variant = Default \<rparr>"

definition subtask_creation_failed :: toast_rec where
  "subtask_creation_failed =
     \<lparr> title = ''Creation failed'', description = Some ''Failed to create subtask'',
       variant = Destructive \<rparr>"

text \<open>\<open>addSubtask\<close>: the new subtask is written with \<open>completed: false\<close> and
  \<open>position: subtasks.length\<close>, the length of the drawer's \<open>subtasks\<close> prop.\<close>

definition addSubtask :: "env \<Rightarrow> drawer \<Rightarrow> world \<Rightarrow> drawer \<times> world" where
  "addSubtask e d w =
     (case selectedTask w of
        None \<Rightarrow> (d, w)
      | Some task \<Rightarrow>
          if trim (d_newSubtaskTitle d) = [] then (d, w)
          else
            (let new = \<lparr> s_id = ''subtask_'' @ show_int (Date_now e),
                         s_title = trim (d_newSubtaskTitle d),
                         s_taskId = t_id task,
                         s_completed = JBool False,
                         s_position = int (length (drawer_subtasks task w)) \<rparr>;
                 w1 = w\<lparr> db_log := db_log w @ [SubtasksCreate new] \<rparr>
             in if write_ok e
                then (d\<lparr> d_newSubtaskTitle := [] \<rparr>,
                      reload e (w1\<lparr> db := store_subtasks_create new (db w1),
                                    toasts := toasts w1 @ [subtask_added] \<rparr>))
                else (d, w1\<lparr> toasts := toasts w1 @ [subtask_creation_failed] \<rparr>)))"

section \<open>Reading the completion of a subtask\<close>

text \<open>\<open>Number(v)\<close> on a boolean or a number.\<close>

fun Number :: "jsval \<Rightarrow> int" where
  "Number (JBool b) = (if b then 1 else 0)"
| "Number (JNum n) = n"

text \<open>\<open>TaskCard\<close>: \<open>completedSubtasks\<close> and \<open>totalSubtasks\<close> of the badge.\<close>

definition completedSubtasks :: "subtask list \<Rightarrow> nat" where
  "completedSubtasks subs = length (filter (\<lambda>st. Number (s_completed st) > 0) subs)"

definition totalSubtasks :: "subtask list \<Rightarrow> nat" where
  "totalSubtasks subs = length subs"

text \<open>\<open>ListView\<close>: \<open>getSubtaskProgress\<close>, the pair \<open>(completed, total)\<close>.\<close>

definition getSubtaskProgress :: "subtask list \<Rightarrow> string \<Rightarrow> nat \<times> nat" where
  "getSubtaskProgress subs taskId =
     (let taskSubtasks = filter (\<lambda>st. s_taskId st = taskId) subs
      in (length (filter (\<lambda>st. Number (s_completed st) > 0) taskSubtasks), length taskSubtasks))"

text \<open>\<open>TaskDetailDrawer\<close>: the count in the heading and the state of each checkbox.\<close>

definition drawer_completed_count :: "subtask list \<Rightarrow> nat" where
  "drawer_completed_count subs = length (filter (\<lambda>st. Number (s_completed st) > 0) subs)"

definition checkbox_checked :: "subtask \<Rightarrow> bool" where
  "checkbox_checked st = (Number (s_completed st) > 0)"

section \<open>A concrete board\<close>

text \<open>
  The board of the scenarios: board \<open>b1\<close> with the columns \<open>col_todo\<close> and \<open>col_done\<close>, the
  tasks \<open>t1\<close> and \<open>t2\<close> in \<open>col_todo\<close> and two subtasks of \<open>t1\<close>; the store also holds
  task \<open>t9\<close> of another board \<open>b2\<close> with its subtask \<open>s9\<close>.
\<close>

definition ex_user :: user_rec where
  "ex_user = \<lparr> u_id = ''u1'', u_email = ''ann@example.org'', u_displayName = None \<rparr>"

definition ex_board :: board where
  "ex_board =
     \<lparr> b_id = ''b1'', b_name = ''My Tasks'', b_description = Some ''Your personal task board'',
       b_userId = ''u1'', b_isShared = False, b_isArchived = False \<rparr>"

definition col_todo :: column where
  "col_todo =
     \<lparr> c_id = ''col_todo'', c_name = ''To Do'', c_boardId = ''b1'', c_position = 0,
       c_color = ''#ef4444'' \<rparr>"

definition col_done :: column where
  "col_done =
     \<lparr> c_id = ''col_done'', c_name = ''Done'', c_boardId = ''b1'', c_position = 2,
       c_color = ''#10b981'' \<rparr>"

definition ex_row :: "string \<Rightarrow> string \<Rightarrow> string \<Rightarrow> int \<Rightarrow> string option \<Rightarrow> task_row" where
  "ex_row i col b pos tgs =
     \<lparr> r_id = i, r_title = ''Task '' @ i, r_description = None, r_columnId = col,
       r_boardId = b, r_userId = ''u1'', r_position = pos, r_dueDate = None,
       r_completed = JBool False, r_tags = tgs, r_createdAt = None, r_updatedAt = None \<rparr>"

definition ex_task :: "string \<Rightarrow> string \<Rightarrow> int \<Rightarrow> string list \<Rightarrow> task" where
  "ex_task i col pos tgs =
     \<lparr> t_id = i, t_title = ''Task '' @ i, t_description = None, t_columnId = col,
       t_boardId = ''b1'', t_userId = ''u1'', t_position = pos, t_dueDate = None,
       t_completed = JBool False, t_tags = tgs, t_createdAt = None, t_updatedAt = None \<rparr>"

definition ex_sub :: "string \<Rightarrow> string \<Rightarrow> jsval \<Rightarrow> int \<Rightarrow> subtask" where
  "ex_sub i t v pos =
     \<lparr> s_id = i, s_title = ''Step '' @ i, s_taskId = t, s_completed = v, s_position = pos \<rparr>"

definition ex_store :: remote_store where
  "ex_store =
     \<lparr> db_columns = [col_todo, col_done],
       db_tasks = [ex_row ''t1'' ''col_todo'' ''b1'' 0 (Some (JSON_stringify [''urgent'', ''q3''])),
                   ex_row ''t2'' ''col_todo'' ''b1'' 1 None,
                   ex_row ''t9'' ''col_x'' ''b2'' 0 (Some ''[]'')],
       db_subtasks = [ex_sub ''s1'' ''t1'' (JNum 1) 0, ex_sub ''s2'' ''t1'' (JBool False) 1,
                      ex_sub ''s9'' ''t9'' (JNum 0) 0] \<rparr>"

definition ex_world :: world where
  "ex_world =
     \<lparr> user = Some ex_user, currentBoard = Some ex_board,
       columns = [col_todo, col_done],
       tasks = [ex_task ''t1'' ''col_todo'' 0 [''urgent'', ''q3''], ex_task ''t2'' ''col_todo'' 1 []],
       subtasks = [ex_sub ''s1'' ''t1'' (JNum 1) 0, ex_sub ''s9'' ''t9'' (JNum 0) 0,
                   ex_sub ''s2'' ''t1'' (JBool False) 1],
       selectedTask = Some (ex_task ''t1'' ''col_todo'' 0 [''urgent'', ''q3'']),
       activeId = None, db = ex_store, db_log = [], toasts = [] \<rparr>"

definition ex_env :: env where
  "ex_env =
     \<lparr> JSON_parse = JSON_parse_array, Date_now = 1720000000000,
       now_iso = ''2024-07-03T09:46:40.000Z'',
       write_ok = True, columns_ok = True, tasks_ok = True, subtasks_ok = True \<rparr>"

text \<open>A store in which the tags of \<open>t1\<close> were written as a comma-separated text.\<close>

definition bad_store :: remote_store where
  "bad_store =
     ex_store\<lparr> db_tasks := [ex_row ''t1'' ''col_done'' ''b1'' 0 (Some ''urgent,q3'')] \<rparr>"

text \<open>The drawer opened on \<open>t1\<close>, with a new subtask typed in.\<close>

definition ex_drawer :: drawer where
  "ex_drawer =
     \<lparr> d_isEditing = False, d_title = ''Task t1'', d_description = [], d_dueDate = None,
       d_tags = [''urgent'', ''q3''], d_newSubtaskTitle = ''Write tests '' \<rparr>"

section \<open>Auxiliary facts\<close>

lemma find_map_comp:
  "find P (map f xs) = map_option f (find (\<lambda>x. P (f x)) xs)"
  by (induction xs) auto

lemma find_SomeD: "find P xs = Some x \<Longrightarrow> P x"
  by (induction xs) (auto split: if_splits)

lemma durable_writes_append:
  "durable_writes (xs @ ys) = durable_writes xs @ durable_writes ys"
  by (simp add: durable_writes_def)

lemma loadBoardData_db: "db (loadBoardData e boardId w) = db w"
  by (simp add: loadBoardData_def Let_def split: sum.splits)

lemma loadBoardData_db_log:
  "db_log (loadBoardData e boardId w) =
     db_log w @ [ColumnsList \<lparr> where_boardId = Some boardId \<rparr>,
                 TasksList \<lparr> where_boardId = Some boardId \<rparr>,
                 SubtasksList \<lparr> where_boardId = None \<rparr>]"
  by (simp add: loadBoardData_def Let_def split: sum.splits)

lemma loadBoardData_writes:
  "durable_writes (db_log (loadBoardData e boardId w)) = durable_writes (db_log w)"
  by (simp add: loadBoardData_db_log durable_writes_def)

lemma reload_db: "db (reload e w) = db w"
  by (simp add: reload_def loadBoardData_db split: option.splits)

lemma reload_writes: "durable_writes (db_log (reload e w)) = durable_writes (db_log w)"
  by (simp add: reload_def loadBoardData_writes split: option.splits)

lemma decode_rows_assignment:
  "decode_rows e rs = Inr ts \<Longrightarrow>
     map (\<lambda>task. (t_id task, t_columnId task)) ts = map (\<lambda>r. (r_id r, r_columnId r)) rs"
proof (induction rs arbitrary: ts)
  case Nil
  then show ?case by simp
next
  case (Cons r rs)
  then show ?case
    by (auto simp: decode_row_def split: sum.splits)
qed

lemma loadBoardData_completes:
  assumes "load_completes e boardId (db w)"
  shows "cache_assignment (loadBoardData e boardId w) = store_assignment boardId (db w)"
proof -
  let ?q = "\<lparr> where_boardId = Some boardId \<rparr>"
  from assms obtain ts where ok: "columns_ok e" "tasks_ok e" "subtasks_ok e"
    and dec: "decode_rows e (tasks_list ?q (db w)) = Inr ts"
    by (auto simp: load_completes_def split: sum.splits)
  then have "tasks (loadBoardData e boardId w) = ts"
    by (simp add: loadBoardData_def Let_def)
  with decode_rows_assignment [OF dec] show ?thesis
    by (simp add: cache_assignment_def store_assignment_def)
qed


text \<open>A throw of \<open>JSON.parse\<close> comes after \<open>setColumns\<close>: the columns are the fetched ones.\<close>

lemma loadBoardData_decode_failure_columns:
  assumes "columns_ok e" and "tasks_ok e" and "subtasks_ok e"
    and "decode_rows e (tasks_list \<lparr> where_boardId = Some boardId \<rparr> (db w)) = Inl err"
  shows "columns (loadBoardData e boardId w) =
           columns_list \<lparr> where_boardId = Some boardId \<rparr> (db w)"
  using assms by (simp add: loadBoardData_def Let_def)

lemma hexval_hexdigit: "n < 16 \<Longrightarrow> hexval (hexdigit n) = Some n"
proof -
  assume small: "n < 16"
  have "\<forall>k \<in> set [0..<16]. hexval (hexdigit k) = Some k"
    by code_simp
  with small show ?thesis by simp
qed

lemma hex4_low:
  assumes "n < 32"
  shows "hex4 (CHR ''0'') (CHR ''0'') (hexdigit (n div 16)) (hexdigit (n mod 16)) = Some n"
proof -
  have a: "hexval (hexdigit (n div 16)) = Some (n div 16)"
    using assms by (intro hexval_hexdigit) auto
  have b: "hexval (hexdigit (n mod 16)) = Some (n mod 16)"
    by (intro hexval_hexdigit) auto
  have z: "hexval (CHR ''0'') = Some 0" by (simp add: hexval_def)
  show ?thesis by (simp add: hex4_def a b z)
qed

lemma read_string_esc:
  "read_string (esc c @ cs) = consume c (read_string cs)"
proof -
  consider (q) "c = CHR 0x22" | (b) "c = CHR 0x5C" | (bs) "c = CHR 0x08" | (ff) "c = CHR 0x0C"
    | (nl) "c = CHR 0x0A" | (cr) "c = CHR 0x0D" | (tab) "c = CHR 0x09"
    | (ctl) "c \<notin> {CHR 0x22, CHR 0x5C, CHR 0x08, CHR 0x0C, CHR 0x0A, CHR 0x0D, CHR 0x09}" "(of_char c :: nat) < 0x20"
    | (plain) "c \<notin> {CHR 0x22, CHR 0x5C, CHR 0x08, CHR 0x0C, CHR 0x0A, CHR 0x0D, CHR 0x09}" "\<not> (of_char c :: nat) < 0x20"
    by blast
  then show ?thesis
  proof cases
    case ctl
    have "hex4 (CHR ''0'') (CHR ''0'') (hexdigit (of_char c div 16)) (hexdigit (of_char c mod 16)) = Some (of_char c)"
      using ctl(2) by (intro hex4_low) simp
    moreover have "(of_char c :: nat) < 256" using ctl(2) by simp
    ultimately show ?thesis using ctl
      by (simp add: esc_def)
  qed (simp_all add: esc_def unescape_def)
qed

lemma read_string_body:
  "read_string (concat (map esc s) @ CHR 0x22 # rest) = Some (s, rest)"
  by (induction s) (simp_all add: read_string_esc consume_def)

lemma skip_ws_quote: "skip_ws (CHR 0x22 # cs) = CHR 0x22 # cs"
  and skip_ws_comma: "skip_ws (CHR '','' # cs) = CHR '','' # cs"
  and skip_ws_close: "skip_ws (CHR '']'' # cs) = CHR '']'' # cs"
  by (simp_all add: skip_ws_def is_ws_def)

lemma read_elems_join:
  "read_elems (join (x # xs) @ CHR '']'' # rest) = Some (x # xs, rest)"
proof (induction xs arbitrary: x)
  case Nil
  show ?case
    by (simp add: quote_def read_string_body skip_ws_close)
next
  case (Cons y ys)
  have "join (y # ys) = CHR 0x22 # tl (join (y # ys))"
    by (cases ys) (simp_all add: quote_def)
  then obtain t where t: "join (y # ys) = CHR 0x22 # t" ..
  have "read_elems (join (x # y # ys) @ CHR '']'' # rest) =
        (case read_elems (skip_ws (join (y # ys) @ CHR '']'' # rest)) of
           None \<Rightarrow> None | Some (zs, r) \<Rightarrow> Some (x # zs, r))"
    by (simp add: quote_def read_string_body skip_ws_comma)
  also have "skip_ws (join (y # ys) @ CHR '']'' # rest) = join (y # ys) @ CHR '']'' # rest"
    by (simp add: t skip_ws_quote)
  finally show ?case by (simp add: Cons.IH)
qed

lemma JSON_round_trip: "JSON_parse_array (JSON_stringify xs) = Inr xs"
proof (cases xs)
  case Nil
  then show ?thesis
    by (simp add: JSON_parse_array_def JSON_stringify_def skip_ws_def is_ws_def)
next
  case (Cons y ys)
  have "join (y # ys) = CHR 0x22 # tl (join (y # ys))"
    by (cases ys) (simp_all add: quote_def)
  then obtain t where t: "join (y # ys) = CHR 0x22 # t" ..
  have sk: "skip_ws (CHR ''['' # join (y # ys) @ [CHR '']'']) = CHR ''['' # join (y # ys) @ [CHR '']'']"
    by (simp add: skip_ws_def is_ws_def)
  have sk2: "skip_ws (join (y # ys) @ [CHR '']'']) = CHR 0x22 # t @ [CHR '']'']"
    by (simp add: t skip_ws_quote)
  have re: "read_elems (CHR 0x22 # t @ [CHR '']'']) = Some (y # ys, [])"
    using read_elems_join [of y ys "[]"] by (simp add: t)
  have e: "skip_ws [] = []" by (simp add: skip_ws_def)
  show ?thesis
    unfolding Cons JSON_parse_array_def JSON_stringify_def sk
    by (simp add: sk2 re e del: read_elems.simps)
qed

lemma JSON_stringify_nonempty: "JSON_stringify xs \<noteq> []"
  by (simp add: JSON_stringify_def)

lemma handleDragEnd_db:
  "db (handleDragEnd e ev w) =
     (case over ev of
        None \<Rightarrow> db w
      | Some overId \<Rightarrow>
          (case find (\<lambda>task. t_id task = active ev) (tasks w) of
             None \<Rightarrow> db w
           | Some T \<Rightarrow>
               if write_ok e
               then store_tasks_update (active ev)
                      \<lparr> p_title = None, p_description = None, p_dueDate = None, p_tags = None,
                        p_columnId = Some (t_columnId T), p_updatedAt = Some (now_iso e) \<rparr> (db w)
               else db w))"
  by (simp add: handleDragEnd_def Let_def reload_db split: option.splits)

lemma handleDragEnd_db_log:
  "durable_writes (db_log (handleDragEnd e ev w)) =
     durable_writes (db_log w) @
       (case over ev of
          None \<Rightarrow> []
        | Some overId \<Rightarrow>
            (case find (\<lambda>task. t_id task = active ev) (tasks w) of
               None \<Rightarrow> []
             | Some T \<Rightarrow>
                 [TasksUpdate (active ev)
                    \<lparr> p_title = None, p_description = None, p_dueDate = None, p_tags = None,
                      p_columnId = Some (t_columnId T), p_updatedAt = Some (now_iso e) \<rparr>]))"
  by (simp add: handleDragEnd_def Let_def reload_writes durable_writes_append
      split: option.splits) (simp add: durable_writes_def)

lemma ex_store_b1:
  "decode_rows (ex_env\<lparr> write_ok := False \<rparr>) (tasks_list \<lparr> where_boardId = Some ''b1'' \<rparr> ex_store) =
     Inr [ex_task ''t1'' ''col_todo'' 0 [''urgent'', ''q3''], ex_task ''t2'' ''col_todo'' 1 []]"
  by code_simp

lemma decode_rows_fails:
  "r \<in> set rs \<Longrightarrow> decode_row e r = Inl err \<Longrightarrow> \<exists>err'. decode_rows e rs = Inl err'"
  by (induction rs) (auto split: sum.splits)

lemma set_tasks_list:
  "set (tasks_list \<lparr> where_boardId = Some boardId \<rparr> d) =
     {r \<in> set (db_tasks d). r_boardId r = boardId}"
  by (auto simp: tasks_list_def matches_def)

lemma set_columns_list:
  "set (columns_list \<lparr> where_boardId = Some boardId \<rparr> d) =
     {c \<in> set (db_columns d). c_boardId c = boardId}"
  by (auto simp: columns_list_def matches_def)

lemma set_subtasks_list: "set (subtasks_list d) = set (db_subtasks d)"
  by (simp add: subtasks_list_def)

lemma createTask_writes:
  assumes "user w = Some u" and "currentBoard w = Some b"
    and "targetColumnId columnId (columns w) = Some tc" and "tc \<noteq> []"
  shows "durable_writes (db_log (createTask e ttl columnId w)) =
     durable_writes (db_log w) @
       [TasksCreate
          \<lparr> r_id = ''task_'' @ show_int (Date_now e), r_title = ttl,
            r_description = None, r_columnId = tc, r_boardId = b_id b, r_userId = u_id u,
            r_position = int (length (filter (\<lambda>t. t_columnId t = tc) (tasks w))),
            r_dueDate = None, r_completed = JBool False,
            r_tags = Some ''[]'', r_createdAt = None, r_updatedAt = None \<rparr>]"
  using assms
  by (simp add: createTask_def Let_def loadBoardData_writes durable_writes_append)
     (simp add: durable_writes_def)

lemma addSubtask_writes:
  assumes "selectedTask w = Some task" and "trim (d_newSubtaskTitle d) \<noteq> []"
  shows "durable_writes (db_log (snd (addSubtask e d w))) =
     durable_writes (db_log w) @
       [SubtasksCreate
          \<lparr> s_id = ''subtask_'' @ show_int (Date_now e),
            s_title = trim (d_newSubtaskTitle d), s_taskId = t_id task,
            s_completed = JBool False,
            s_position = int (length (filter (\<lambda>st. s_taskId st = t_id task) (subtasks w))) \<rparr>]"
  using assms
  by (simp add: addSubtask_def Let_def reload_writes durable_writes_append drawer_subtasks_def)
     (simp add: durable_writes_def)

lemma toggleSubtask_writes:
  "durable_writes (db_log (toggleSubtask e subtaskId completed w)) =
     durable_writes (db_log w) @ [SubtasksUpdate subtaskId (JNum (if completed then 1 else 0))]"
  by (simp add: toggleSubtask_def Let_def reload_writes durable_writes_append)
     (simp add: durable_writes_def)

lemma handleSave_writes:
  assumes "selectedTask w = Some task"
  shows "durable_writes (db_log (snd (handleSave e d w))) =
     durable_writes (db_log w) @
       [TasksUpdate (t_id task)
          \<lparr> p_title = Some (d_title d),
            p_description = Some (if d_description d = [] then None else Some (d_description d)),
            p_dueDate = Some (d_dueDate d),
            p_tags = Some (JSON_stringify (d_tags d)),
            p_columnId = None,
            p_updatedAt = Some (now_iso e) \<rparr>]"
  using assms
  by (simp add: handleSave_def Let_def reload_writes durable_writes_append)
     (simp add: durable_writes_def)


lemma handleDragOver_keeps:
  "currentBoard (handleDragOver ev w) = currentBoard w"
  "db (handleDragOver ev w) = db w"
  "db_log (handleDragOver ev w) = db_log w"
  by (simp_all add: handleDragOver_def split: option.splits)

lemma handleDragOver_keeps_ids:
  "map t_id (tasks (handleDragOver ev w)) = map t_id (tasks w)"
  by (simp add: handleDragOver_def comp_def split: option.splits)

lemma find_by_id_None:
  "(find (\<lambda>task. t_id task = a) ts = None) = (a \<notin> set (map t_id ts))"
  by (induction ts) auto

lemma hovers_keep:
  "currentBoard (foldl (\<lambda>w' target. handleDragOver \<lparr> active = a, over = target \<rparr> w') w hovers)
     = currentBoard w
   \<and> db (foldl (\<lambda>w' target. handleDragOver \<lparr> active = a, over = target \<rparr> w') w hovers) = db w
   \<and> db_log (foldl (\<lambda>w' target. handleDragOver \<lparr> active = a, over = target \<rparr> w') w hovers)
       = db_log w
   \<and> map t_id (tasks (foldl (\<lambda>w' target. handleDragOver \<lparr> active = a, over = target \<rparr> w') w hovers))
       = map t_id (tasks w)"
  by (induction hovers arbitrary: w) (simp_all add: handleDragOver_keeps handleDragOver_keeps_ids)

lemma hovering_keeps:
  "currentBoard (hovering a hovers w) = currentBoard w"
  "db (hovering a hovers w) = db w"
  "db_log (hovering a hovers w) = db_log w"
  "map t_id (tasks (hovering a hovers w)) = map t_id (tasks w)"
  using hovers_keep [of a "handleDragStart \<lparr> active = a, over = None \<rparr> w" hovers]
  by (simp_all add: hovering_def handleDragStart_def)

lemma handleDragEnd_reconciles:
  assumes "over ev = Some overId"
    and "find (\<lambda>task. t_id task = active ev) (tasks w) = Some T"
    and "currentBoard w = Some b"
    and "load_completes e (b_id b) (db (handleDragEnd e ev w))"
  shows "cache_assignment (handleDragEnd e ev w) =
           store_assignment (b_id b) (db (handleDragEnd e ev w))
         \<and> (\<not> write_ok e \<longrightarrow> db (handleDragEnd e ev w) = db w)"
proof -
  let ?p = "\<lparr> p_title = None, p_description = None, p_dueDate = None, p_tags = None,
              p_columnId = Some (t_columnId T), p_updatedAt = Some (now_iso e) \<rparr>"
  let ?w1 = "w\<lparr> activeId := None, db_log := db_log w @ [TasksUpdate (active ev) ?p] \<rparr>"
  let ?w2 = "if write_ok e then ?w1\<lparr> db := store_tasks_update (active ev) ?p (db w) \<rparr>
             else ?w1\<lparr> toasts := toasts w @ [update_error] \<rparr>"
  have step: "handleDragEnd e ev w = loadBoardData e (b_id b) ?w2"
    using assms(1-3) by (simp add: handleDragEnd_def Let_def reload_def)
  have db: "db (handleDragEnd e ev w) = db ?w2"
    unfolding step by (rule loadBoardData_db)
  with assms(4) have "load_completes e (b_id b) (db ?w2)" by simp
  then have "cache_assignment (loadBoardData e (b_id b) ?w2) = store_assignment (b_id b) (db ?w2)"
    by (rule loadBoardData_completes)
  then have "cache_assignment (handleDragEnd e ev w) =
      store_assignment (b_id b) (db (handleDragEnd e ev w))"
    using db step by simp
  moreover have "\<not> write_ok e \<longrightarrow> db (handleDragEnd e ev w) = db w"
    using db by simp
  ultimately show ?thesis by simp
qed

lemma overColumn_self:
  assumes "overColumn a w = Some C"
    and "find (\<lambda>task. t_id task = a) (tasks w) = Some T"
    and "find (\<lambda>col. c_id col = a) (columns w) = None"
  shows "c_id C = t_columnId T"
  using assms by (auto simp: overColumn_def dest: find_SomeD)

text \<open>A second hover event with the same target finds the task already moved.\<close>

lemma handleDragOver_twice:
  "handleDragOver ev (handleDragOver ev w) = handleDragOver ev w"
proof (cases "over ev")
  case None
  then show ?thesis by (simp add: handleDragOver_def)
next
  case (Some overId)
  show ?thesis
  proof (cases "find (\<lambda>task. t_id task = active ev) (tasks w)")
    case None
    with Some show ?thesis by (simp add: handleDragOver_def)
  next
    case T: (Some T)
    show ?thesis
    proof (cases "overColumn overId w")
      case None
      with Some T show ?thesis by (simp add: handleDragOver_def)
    next
      case C: (Some C)
      show ?thesis
      proof (cases "t_columnId T = c_id C")
        case True
        with Some T C show ?thesis by (simp add: handleDragOver_def)
      next
        case False
        let ?f = "\<lambda>task. if t_id task = active ev then task\<lparr> t_columnId := c_id C \<rparr> else task"
        let ?w' = "w\<lparr> tasks := map ?f (tasks w) \<rparr>"
        have step: "handleDragOver ev w = ?w'"
          using Some T C False by (simp add: handleDragOver_def)
        have same_id: "(\<lambda>x. t_id (?f x) = i) = (\<lambda>task. t_id task = i)" for i
          by (rule ext) auto
        have moved: "find (\<lambda>task. t_id task = i) (map ?f (tasks w)) =
            map_option ?f (find (\<lambda>task. t_id task = i) (tasks w))" for i
          by (simp only: find_map_comp same_id)
        have T': "find (\<lambda>task. t_id task = active ev) (tasks ?w') = Some (?f T)"
          using T by (simp add: moved)
        have C': "overColumn overId ?w' = Some C"
        proof (cases "find (\<lambda>col. c_id col = overId) (columns w)")
          case (Some c)
          with C show ?thesis by (simp add: overColumn_def)
        next
          case None
          have ne: "overId \<noteq> active ev"
          proof
            assume "overId = active ev"
            with C T None have "c_id C = t_columnId T"
              using overColumn_self by metis
            with False show False by simp
          qed
          have "?f x = x" if "find (\<lambda>task. t_id task = overId) (tasks w) = Some x" for x
            using that ne by (auto dest: find_SomeD)
          then have "find (\<lambda>task. t_id task = overId) (map ?f (tasks w)) =
              find (\<lambda>task. t_id task = overId) (tasks w)"
            unfolding moved by (cases "find (\<lambda>task. t_id task = overId) (tasks w)") auto
          with C None show ?thesis by (simp add: overColumn_def)
        qed
        have "t_columnId (?f T) = c_id C"
          using T by (auto dest: find_SomeD)
        with Some T' C' have "handleDragOver ev ?w' = ?w'"
          by (simp add: handleDragOver_def)
        with step show ?thesis by simp
      qed
    qed
  qed
qed

section \<open>The optimistic move\<close>

text \<open>
  Claim C3 (optimistic idempotence). While task \<open>T\<close> is dragged and its cached \<open>columnId\<close>
  is already that of column \<open>C\<close>, a hover event whose target resolves to \<open>C\<close> (the column
  itself, or a task lying in it) leaves the whole state, and so the cache, as it is; and the
  same hover event issued twice in a row has the effect of issuing it once.
\<close>

theorem handleDragOver_idempotent:
  "(find (\<lambda>task. t_id task = active ev) (tasks w) = Some T
      \<and> over ev = Some overId \<and> overColumn overId w = Some C \<and> t_columnId T = c_id C
      \<longrightarrow> handleDragOver ev w = w)
   \<and> handleDragOver ev (handleDragOver ev w) = handleDragOver ev w"
  by (simp add: handleDragOver_twice) (simp add: handleDragOver_def)

text \<open>
  Witness for C3: \<open>t1\<close> lies in \<open>col_todo\<close> and hovers over \<open>t2\<close>, which lies in \<open>col_todo\<close>
  as well.
\<close>

theorem handleDragOver_idempotent_witness:
  "find (\<lambda>task. t_id task = active \<lparr> active = ''t1'', over = Some ''t2'' \<rparr>) (tasks ex_world)
     = Some (ex_task ''t1'' ''col_todo'' 0 [''urgent'', ''q3''])
   \<and> over \<lparr> active = ''t1'', over = Some ''t2'' \<rparr> = Some ''t2''
   \<and> overColumn ''t2'' ex_world = Some col_todo
   \<and> t_columnId (ex_task ''t1'' ''col_todo'' 0 [''urgent'', ''q3'']) = c_id col_todo
   \<and> handleDragOver \<lparr> active = ''t1'', over = Some ''t2'' \<rparr> ex_world = ex_world"
proof -
  let ?ev = "\<lparr> active = ''t1'', over = Some ''t2'' \<rparr>"
  let ?T = "ex_task ''t1'' ''col_todo'' 0 [''urgent'', ''q3'']"
  have h1: "find (\<lambda>task. t_id task = active ?ev) (tasks ex_world) = Some ?T"
    by code_simp
  have h2: "over ?ev = Some ''t2''" by simp
  have h3: "overColumn ''t2'' ex_world = Some col_todo" by code_simp
  have h4: "t_columnId ?T = c_id col_todo" by code_simp
  from handleDragOver_idempotent [of ?ev ex_world ?T "''t2''" col_todo] h1 h2 h3 h4
  show ?thesis by simp
qed

text \<open>
  Claim C9 (frame of the optimistic move). When a hover event moves task \<open>T\<close> to another
  column \<open>C\<close>, the columns, the subtasks, the store and the calls issued to it are unchanged
  (no write is issued), the task list keeps its length, every task with the identifier of
  \<open>T\<close> changes in its \<open>columnId\<close> only, every other task is unchanged, and nothing else of
  the state changes.
\<close>

theorem handleDragOver_frame:
  assumes "over ev = Some overId"
    and "find (\<lambda>task. t_id task = active ev) (tasks w) = Some T"
    and "overColumn overId w = Some C"
    and "t_columnId T \<noteq> c_id C"
  shows "columns (handleDragOver ev w) = columns w \<and>
         subtasks (handleDragOver ev w) = subtasks w \<and>
         db (handleDragOver ev w) = db w \<and>
         db_log (handleDragOver ev w) = db_log w \<and>
         length (tasks (handleDragOver ev w)) = length (tasks w) \<and>
         (\<forall>i < length (tasks w).
            tasks (handleDragOver ev w) ! i =
              (if t_id (tasks w ! i) = active ev
               then (tasks w ! i)\<lparr> t_columnId := c_id C \<rparr>
               else tasks w ! i)) \<and>
         handleDragOver ev w = w\<lparr> tasks := tasks (handleDragOver ev w) \<rparr>"
  using assms by (simp add: handleDragOver_def)

text \<open>Witness for C9: \<open>t1\<close> hovers over \<open>col_done\<close>.\<close>

theorem handleDragOver_frame_witness:
  "over \<lparr> active = ''t1'', over = Some ''col_done'' \<rparr> = Some ''col_done''
   \<and> find (\<lambda>task. t_id task = active \<lparr> active = ''t1'', over = Some ''col_done'' \<rparr>) (tasks ex_world)
       = Some (ex_task ''t1'' ''col_todo'' 0 [''urgent'', ''q3''])
   \<and> overColumn ''col_done'' ex_world = Some col_done
   \<and> t_columnId (ex_task ''t1'' ''col_todo'' 0 [''urgent'', ''q3'']) \<noteq> c_id col_done
   \<and> handleDragOver \<lparr> active = ''t1'', over = Some ''col_done'' \<rparr> ex_world =
       ex_world\<lparr> tasks := [ex_task ''t1'' ''col_done'' 0 [''urgent'', ''q3''],
                            ex_task ''t2'' ''col_todo'' 1 []] \<rparr>
   \<and> db_log (handleDragOver \<lparr> active = ''t1'', over = Some ''col_done'' \<rparr> ex_world) = []"
proof -
  let ?ev = "\<lparr> active = ''t1'', over = Some ''col_done'' \<rparr>"
  let ?T = "ex_task ''t1'' ''col_todo'' 0 [''urgent'', ''q3'']"
  have h1: "over ?ev = Some ''col_done''" by simp
  have h2: "find (\<lambda>task. t_id task = active ?ev) (tasks ex_world) = Some ?T"
    by code_simp
  have h3: "overColumn ''col_done'' ex_world = Some col_done" by code_simp
  have h4: "t_columnId ?T \<noteq> c_id col_done" by code_simp
  have t: "tasks (handleDragOver ?ev ex_world) =
      [ex_task ''t1'' ''col_done'' 0 [''urgent'', ''q3''], ex_task ''t2'' ''col_todo'' 1 []]"
    by code_simp
  have l: "db_log ex_world = []" by code_simp
  from handleDragOver_frame [OF h1 h2 h3 h4]
  have "db_log (handleDragOver ?ev ex_world) = db_log ex_world"
    and "handleDragOver ?ev ex_world = ex_world\<lparr> tasks := tasks (handleDragOver ?ev ex_world) \<rparr>"
    by blast+
  with h1 h2 h3 h4 t l show ?thesis by simp
qed

section \<open>The drop\<close>

text \<open>
  Claim C1 (convergence). Take any drag of a task of the cache, over any sequence of hover
  targets, that ends in a drop with a target, on a selected board. The drop starts a
  reconciliation load whether the write succeeded or failed; when that load completes, the
  task-to-column assignment of the cache is that of the board in the store. When the write
  failed the store is the one before the drag, so the optimistic moves are undone.
\<close>

theorem drag_gesture_converges:
  assumes "a \<in> set (map t_id (tasks w))"
    and "target = Some overId"
    and "currentBoard w = Some b"
    and "load_completes e (b_id b) (db (drag_gesture e a hovers target w))"
  shows "cache_assignment (drag_gesture e a hovers target w) =
           store_assignment (b_id b) (db (drag_gesture e a hovers target w))
         \<and> (\<not> write_ok e \<longrightarrow> db (drag_gesture e a hovers target w) = db w)"
proof -
  let ?ev = "\<lparr> active = a, over = target \<rparr>"
  let ?w = "hovering a hovers w"
  from assms(1) have "find (\<lambda>task. t_id task = a) (tasks ?w) \<noteq> None"
    by (simp add: find_by_id_None hovering_keeps del: set_map)
  then obtain T where T: "find (\<lambda>task. t_id task = active ?ev) (tasks ?w) = Some T"
    by auto
  have o: "over ?ev = Some overId" using assms(2) by simp
  have b: "currentBoard ?w = Some b" using assms(3) by (simp add: hovering_keeps)
  have l: "load_completes e (b_id b) (db (handleDragEnd e ?ev ?w))"
    using assms(4) by (simp add: drag_gesture_def)
  from handleDragEnd_reconciles [OF o T b l] show ?thesis
    by (simp add: drag_gesture_def hovering_keeps)
qed

text \<open>
  Witness for C1, the scenario of the specification: \<open>t1\<close> is dragged from \<open>col_todo\<close> over
  \<open>t2\<close> and over nothing onto \<open>col_done\<close>, where the cache shows it; the write fails, the
  re-fetch returns \<open>t1\<close> in \<open>col_todo\<close>, and the cache ends with \<open>t1\<close> in \<open>col_todo\<close>.
\<close>

theorem drag_gesture_converges_witness:
  "''t1'' \<in> set (map t_id (tasks ex_world))
   \<and> currentBoard ex_world = Some ex_board
   \<and> cache_assignment (hovering ''t1'' [Some ''t2'', None, Some ''col_done''] ex_world)
       = [(''t1'', ''col_done''), (''t2'', ''col_todo'')]
   \<and> load_completes (ex_env\<lparr> write_ok := False \<rparr>) (b_id ex_board)
        (db (drag_gesture (ex_env\<lparr> write_ok := False \<rparr>) ''t1'' [Some ''t2'', None, Some ''col_done'']
               (Some ''col_done'') ex_world))
   \<and> cache_assignment (drag_gesture (ex_env\<lparr> write_ok := False \<rparr>) ''t1''
         [Some ''t2'', None, Some ''col_done''] (Some ''col_done'') ex_world)
       = store_assignment ''b1'' ex_store
   \<and> cache_assignment (drag_gesture (ex_env\<lparr> write_ok := False \<rparr>) ''t1''
         [Some ''t2'', None, Some ''col_done''] (Some ''col_done'') ex_world)
       = [(''t1'', ''col_todo''), (''t2'', ''col_todo'')]"
proof -
  let ?e = "ex_env\<lparr> write_ok := False \<rparr>"
  let ?hs = "[Some ''t2'', None, Some ''col_done'']"
  let ?g = "drag_gesture ?e ''t1'' ?hs (Some ''col_done'') ex_world"
  have h1: "''t1'' \<in> set (map t_id (tasks ex_world))" by code_simp
  have h2: "Some ''col_done'' = Some ''col_done''" by simp
  have h3: "currentBoard ex_world = Some ex_board" by (simp add: ex_world_def)
  have mv: "cache_assignment (hovering ''t1'' ?hs ex_world)
       = [(''t1'', ''col_done''), (''t2'', ''col_todo'')]" by code_simp
  have f: "find (\<lambda>task. t_id task = ''t1'') (tasks (hovering ''t1'' ?hs ex_world)) =
      Some (ex_task ''t1'' ''col_done'' 0 [''urgent'', ''q3''])" by code_simp
  have d0: "db ex_world = ex_store" by (simp add: ex_world_def)
  have d: "db ?g = ex_store"
    by (simp add: drag_gesture_def handleDragEnd_db f hovering_keeps d0)
  have b: "b_id ex_board = ''b1''" by code_simp
  have ok: "columns_ok ?e \<and> tasks_ok ?e \<and> subtasks_ok ?e" by (simp add: ex_env_def)
  have h4: "load_completes ?e (b_id ex_board) (db ?g)"
    unfolding d b load_completes_def using ok by (simp add: ex_store_b1)
  have s: "store_assignment ''b1'' ex_store = [(''t1'', ''col_todo''), (''t2'', ''col_todo'')]"
    by code_simp
  from drag_gesture_converges [OF h1 h2 h3 h4] d b
  have "cache_assignment ?g = store_assignment ''b1'' ex_store" by simp
  with h1 h3 mv h4 s show ?thesis by simp
qed

text \<open>
  Claim C2 as stated (a drop of a task back into its original column issues no durable
  write) fails: \<open>t1\<close> is picked up in \<open>col_todo\<close> and dropped on \<open>col_todo\<close>, the hover
  event over \<open>col_todo\<close> moves nothing, and the drop issues one \<open>tasks.update\<close>.
\<close>

theorem self_drop_counterexample:
  "overColumn ''col_todo'' ex_world = Some col_todo
   \<and> find (\<lambda>task. t_id task = ''t1'') (tasks ex_world)
       = Some (ex_task ''t1'' ''col_todo'' 0 [''urgent'', ''q3''])
   \<and> tasks (hovering ''t1'' [Some ''col_todo''] ex_world) = tasks ex_world
   \<and> durable_writes (db_log ex_world) = []
   \<and> durable_writes (db_log (drag_gesture ex_env ''t1'' [Some ''col_todo''] (Some ''col_todo'') ex_world))
       = [TasksUpdate ''t1'' \<lparr> p_title = None, p_description = None, p_dueDate = None,
            p_tags = None, p_columnId = Some ''col_todo'',
            p_updatedAt = Some ''2024-07-03T09:46:40.000Z'' \<rparr>]"
proof -
  let ?T = "ex_task ''t1'' ''col_todo'' 0 [''urgent'', ''q3'']"
  let ?w = "hovering ''t1'' [Some ''col_todo''] ex_world"
  have c1: "overColumn ''col_todo'' ex_world = Some col_todo" by code_simp
  have c2: "find (\<lambda>task. t_id task = ''t1'') (tasks ex_world) = Some ?T" by code_simp
  have c3: "tasks ?w = tasks ex_world" by code_simp
  have l: "durable_writes (db_log ex_world) = []" by code_simp
  have c: "t_columnId ?T = ''col_todo''" by code_simp
  have n: "now_iso ex_env = ''2024-07-03T09:46:40.000Z''" by (simp add: ex_env_def)
  have c4: "durable_writes (db_log (drag_gesture ex_env ''t1'' [Some ''col_todo''] (Some ''col_todo'') ex_world))
       = [TasksUpdate ''t1'' \<lparr> p_title = None, p_description = None, p_dueDate = None,
            p_tags = None, p_columnId = Some ''col_todo'',
            p_updatedAt = Some ''2024-07-03T09:46:40.000Z'' \<rparr>]"
    by (simp add: drag_gesture_def handleDragEnd_db_log c3 c2 hovering_keeps l c n)
  from c1 c2 c3 l c4 show ?thesis by simp
qed

text \<open>
  Claim C2, amended. A drop with a target, of a task that is in the cache, issues exactly one
  durable write, the update of that task's \<open>columnId\<close> to the value the cache holds at the
  drop and of \<open>updatedAt\<close>, also when the task is dropped back into its original column; a
  drop without a target, or of a task that is not in the cache, issues none.
\<close>

theorem handleDragEnd_writes:
  "durable_writes (db_log (handleDragEnd e ev w)) =
     durable_writes (db_log w) @
       (case over ev of
          None \<Rightarrow> []
        | Some overId \<Rightarrow>
            (case find (\<lambda>task. t_id task = active ev) (tasks w) of
               None \<Rightarrow> []
             | Some T \<Rightarrow>
                 [TasksUpdate (active ev)
                    \<lparr> p_title = None, p_description = None, p_dueDate = None, p_tags = None,
                      p_columnId = Some (t_columnId T), p_updatedAt = Some (now_iso e) \<rparr>]))"
  by (rule handleDragEnd_db_log)

text \<open>Witness for C2: the drop of \<open>t1\<close> on its own column, and a drop without a target.\<close>

theorem handleDragEnd_writes_witness:
  "durable_writes (db_log (handleDragEnd ex_env \<lparr> active = ''t1'', over = Some ''col_todo'' \<rparr> ex_world))
     = [TasksUpdate ''t1'' \<lparr> p_title = None, p_description = None, p_dueDate = None,
            p_tags = None, p_columnId = Some ''col_todo'',
            p_updatedAt = Some ''2024-07-03T09:46:40.000Z'' \<rparr>]
   \<and> durable_writes (db_log (handleDragEnd ex_env \<lparr> active = ''t1'', over = None \<rparr> ex_world)) = []"
proof -
  have l: "durable_writes (db_log ex_world) = []" by code_simp
  have f: "find (\<lambda>task. t_id task = ''t1'') (tasks ex_world)
       = Some (ex_task ''t1'' ''col_todo'' 0 [''urgent'', ''q3''])" by code_simp
  have c: "t_columnId (ex_task ''t1'' ''col_todo'' 0 [''urgent'', ''q3'']) = ''col_todo''"
    by code_simp
  have n: "now_iso ex_env = ''2024-07-03T09:46:40.000Z''" by (simp add: ex_env_def)
  show ?thesis
    using handleDragEnd_writes [of ex_env "\<lparr> active = ''t1'', over = Some ''col_todo'' \<rparr>" ex_world]
      handleDragEnd_writes [of ex_env "\<lparr> active = ''t1'', over = None \<rparr>" ex_world]
    by (simp add: l f c n)
qed

section \<open>The reconciliation load\<close>

text \<open>
  Claim C5 (failed fetch). When one of the three reads fails, the columns, the tasks and the
  subtasks of the cache are all as before, and the error notification \<open>Loading Error\<close> is
  shown.
\<close>

theorem loadBoardData_fetch_failure:
  assumes "\<not> (columns_ok e \<and> tasks_ok e \<and> subtasks_ok e)"
  shows "columns (loadBoardData e boardId w) = columns w
         \<and> tasks (loadBoardData e boardId w) = tasks w
         \<and> subtasks (loadBoardData e boardId w) = subtasks w
         \<and> toasts (loadBoardData e boardId w) = toasts w @ [loading_error]
         \<and> variant loading_error = Destructive"
  using assms by (auto simp: loadBoardData_def Let_def loading_error_def)

text \<open>Witness for C5: the read of the tasks fails.\<close>

theorem loadBoardData_fetch_failure_witness:
  "\<not> (columns_ok (ex_env\<lparr> tasks_ok := False \<rparr>) \<and> tasks_ok (ex_env\<lparr> tasks_ok := False \<rparr>)
        \<and> subtasks_ok (ex_env\<lparr> tasks_ok := False \<rparr>))
   \<and> columns (loadBoardData (ex_env\<lparr> tasks_ok := False \<rparr>) ''b1'' ex_world) = [col_todo, col_done]
   \<and> tasks (loadBoardData (ex_env\<lparr> tasks_ok := False \<rparr>) ''b1'' ex_world) = tasks ex_world
   \<and> subtasks (loadBoardData (ex_env\<lparr> tasks_ok := False \<rparr>) ''b1'' ex_world) = subtasks ex_world
   \<and> toasts (loadBoardData (ex_env\<lparr> tasks_ok := False \<rparr>) ''b1'' ex_world) = [loading_error]"
proof -
  have h: "\<not> (columns_ok (ex_env\<lparr> tasks_ok := False \<rparr>) \<and> tasks_ok (ex_env\<lparr> tasks_ok := False \<rparr>)
        \<and> subtasks_ok (ex_env\<lparr> tasks_ok := False \<rparr>))" by simp
  have c: "columns ex_world = [col_todo, col_done]" and t: "toasts ex_world = []"
    by (simp_all add: ex_world_def)
  from loadBoardData_fetch_failure [OF h, of "''b1''" ex_world] h c t show ?thesis by simp
qed

text \<open>
  Claim C4 as stated (a malformed tag encoding is decoded to the empty tag set, the load
  completes and shows no error) fails: with the tags of \<open>t1\<close> stored as \<open>urgent,q3\<close>,
  \<open>JSON.parse\<close> throws, the load shows \<open>Loading Error\<close> and the tasks of the cache are the
  ones from before the load, not the row of the store.
\<close>

theorem malformed_tags_counterexample:
  "r_tags (ex_row ''t1'' ''col_done'' ''b1'' 0 (Some ''urgent,q3'')) = Some ''urgent,q3''
   \<and> JSON_parse ex_env ''urgent,q3'' = Inl SyntaxError
   \<and> tasks_list \<lparr> where_boardId = Some ''b1'' \<rparr> bad_store
       = [ex_row ''t1'' ''col_done'' ''b1'' 0 (Some ''urgent,q3'')]
   \<and> toasts (loadBoardData ex_env ''b1'' (ex_world\<lparr> db := bad_store \<rparr>)) = [loading_error]
   \<and> tasks (loadBoardData ex_env ''b1'' (ex_world\<lparr> db := bad_store \<rparr>))
       = [ex_task ''t1'' ''col_todo'' 0 [''urgent'', ''q3''], ex_task ''t2'' ''col_todo'' 1 []]"
  by code_simp

text \<open>
  Claim C4, amended. An absent and an empty tag encoding decode to the empty tag list without
  an error. When the three reads succeed and a task of the board has a non-empty encoding
  on which \<open>JSON.parse\<close> throws, the load does not replace the tasks and the subtasks of
  the cache and shows the error notification \<open>Loading Error\<close>.
\<close>

theorem loadBoardData_malformed_tags:
  assumes "columns_ok e" and "tasks_ok e" and "subtasks_ok e"
    and "r \<in> set (db_tasks (db w))" and "r_boardId r = boardId"
    and "r_tags r = Some text" and "text \<noteq> []"
    and "JSON_parse e text = Inl err"
  shows "tasks (loadBoardData e boardId w) = tasks w
         \<and> subtasks (loadBoardData e boardId w) = subtasks w
         \<and> toasts (loadBoardData e boardId w) = toasts w @ [loading_error]
         \<and> decode_tags e None = Inr [] \<and> decode_tags e (Some []) = Inr []"
proof -
  let ?q = "\<lparr> where_boardId = Some boardId \<rparr>"
  from assms(4,5) have "r \<in> set (tasks_list ?q (db w))"
    by (simp add: set_tasks_list)
  moreover from assms(6-8) have "decode_row e r = Inl err"
    by (simp add: decode_row_def decode_tags_def)
  ultimately obtain err' where "decode_rows e (tasks_list ?q (db w)) = Inl err'"
    using decode_rows_fails by blast
  with assms(1-3) show ?thesis
    by (simp add: loadBoardData_def Let_def decode_tags_def)
qed

text \<open>Witness for C4: the store in which the tags of \<open>t1\<close> are \<open>urgent,q3\<close>.\<close>

theorem loadBoardData_malformed_tags_witness:
  "columns_ok ex_env \<and> tasks_ok ex_env \<and> subtasks_ok ex_env
   \<and> ex_row ''t1'' ''col_done'' ''b1'' 0 (Some ''urgent,q3'') \<in> set (db_tasks (db (ex_world\<lparr> db := bad_store \<rparr>)))
   \<and> r_boardId (ex_row ''t1'' ''col_done'' ''b1'' 0 (Some ''urgent,q3'')) = ''b1''
   \<and> r_tags (ex_row ''t1'' ''col_done'' ''b1'' 0 (Some ''urgent,q3'')) = Some ''urgent,q3''
   \<and> ''urgent,q3'' \<noteq> []
   \<and> JSON_parse ex_env ''urgent,q3'' = Inl SyntaxError
   \<and> tasks (loadBoardData ex_env ''b1'' (ex_world\<lparr> db := bad_store \<rparr>)) = tasks ex_world
   \<and> subtasks (loadBoardData ex_env ''b1'' (ex_world\<lparr> db := bad_store \<rparr>)) = subtasks ex_world
   \<and> toasts (loadBoardData ex_env ''b1'' (ex_world\<lparr> db := bad_store \<rparr>)) = [loading_error]"
proof -
  let ?r = "ex_row ''t1'' ''col_done'' ''b1'' 0 (Some ''urgent,q3'')"
  let ?w = "ex_world\<lparr> db := bad_store \<rparr>"
  have h1: "columns_ok ex_env" and h2: "tasks_ok ex_env" and h3: "subtasks_ok ex_env"
    by (simp_all add: ex_env_def)
  have h4: "?r \<in> set (db_tasks (db ?w))" by (simp add: bad_store_def)
  have h5: "r_boardId ?r = ''b1''" by (simp add: ex_row_def)
  have h6: "r_tags ?r = Some ''urgent,q3''" by (simp add: ex_row_def)
  have h7: "''urgent,q3'' \<noteq> []" by simp
  have h8: "JSON_parse ex_env ''urgent,q3'' = Inl SyntaxError" by code_simp
  have t: "toasts ?w = []" and ts: "tasks ?w = tasks ex_world" and ss: "subtasks ?w = subtasks ex_world"
    by (simp_all add: ex_world_def)
  from loadBoardData_malformed_tags [OF h1 h2 h3 h4 h5 h6 h7 h8] t ts ss
  have "tasks (loadBoardData ex_env ''b1'' ?w) = tasks ex_world
      \<and> subtasks (loadBoardData ex_env ''b1'' ?w) = subtasks ex_world
      \<and> toasts (loadBoardData ex_env ''b1'' ?w) = [loading_error]"
    by simp
  with h1 h2 h3 h4 h5 h6 h7 h8 show ?thesis by simp
qed

text \<open>
  Claim C8 as stated (each of the three reads is restricted to the given board) fails for
  the subtasks: the load of board \<open>b1\<close> puts subtask \<open>s9\<close> into the cache, a subtask of task
  \<open>t9\<close>, which belongs to board \<open>b2\<close>; the subtask query carries no filter.
\<close>

theorem subtasks_query_counterexample:
  "ex_sub ''s9'' ''t9'' (JNum 0) 0 \<in> set (subtasks (loadBoardData ex_env ''b1'' (ex_world\<lparr> subtasks := [] \<rparr>)))
   \<and> s_taskId (ex_sub ''s9'' ''t9'' (JNum 0) 0) = ''t9''
   \<and> map r_boardId (filter (\<lambda>r. r_id r = ''t9'') (db_tasks ex_store)) = [''b2'']
   \<and> db_log (loadBoardData ex_env ''b1'' (ex_world\<lparr> subtasks := [] \<rparr>))
       = [ColumnsList \<lparr> where_boardId = Some ''b1'' \<rparr>, TasksList \<lparr> where_boardId = Some ''b1'' \<rparr>,
          SubtasksList \<lparr> where_boardId = None \<rparr>]"
  by code_simp

text \<open>
  Claim C8, amended. The load issues three reads: the columns and the tasks with the filter
  \<open>where: { boardId }\<close>, the subtasks without a filter. When it completes, the cache holds
  the columns of the board, the decoded tasks of the board, and all the subtasks of the
  store, those of other boards included.
\<close>

theorem loadBoardData_queries:
  "db_log (loadBoardData e boardId w) =
     db_log w @ [ColumnsList \<lparr> where_boardId = Some boardId \<rparr>,
                 TasksList \<lparr> where_boardId = Some boardId \<rparr>,
                 SubtasksList \<lparr> where_boardId = None \<rparr>]
   \<and> (load_completes e boardId (db w) \<longrightarrow>
        columns (loadBoardData e boardId w) = columns_list \<lparr> where_boardId = Some boardId \<rparr> (db w)
        \<and> set (columns (loadBoardData e boardId w)) = {c \<in> set (db_columns (db w)). c_boardId c = boardId}
        \<and> decode_rows e (tasks_list \<lparr> where_boardId = Some boardId \<rparr> (db w)) = Inr (tasks (loadBoardData e boardId w))
        \<and> set (tasks_list \<lparr> where_boardId = Some boardId \<rparr> (db w)) = {r \<in> set (db_tasks (db w)). r_boardId r = boardId}
        \<and> subtasks (loadBoardData e boardId w) = subtasks_list (db w)
        \<and> set (subtasks (loadBoardData e boardId w)) = set (db_subtasks (db w)))"
proof -
  have "load_completes e boardId (db w) \<Longrightarrow>
        columns (loadBoardData e boardId w) = columns_list \<lparr> where_boardId = Some boardId \<rparr> (db w)
        \<and> decode_rows e (tasks_list \<lparr> where_boardId = Some boardId \<rparr> (db w)) = Inr (tasks (loadBoardData e boardId w))
        \<and> subtasks (loadBoardData e boardId w) = subtasks_list (db w)"
    by (auto simp: load_completes_def loadBoardData_def Let_def split: sum.splits)
  then show ?thesis
    by (auto simp: loadBoardData_db_log set_columns_list set_tasks_list set_subtasks_list
        simp del: set_filter)
qed

text \<open>Witness for C8: the load of board \<open>b1\<close>.\<close>

theorem loadBoardData_queries_witness:
  "load_completes ex_env ''b1'' (db ex_world)
   \<and> db_log (loadBoardData ex_env ''b1'' ex_world)
       = [ColumnsList \<lparr> where_boardId = Some ''b1'' \<rparr>, TasksList \<lparr> where_boardId = Some ''b1'' \<rparr>,
          SubtasksList \<lparr> where_boardId = None \<rparr>]
   \<and> set (subtasks (loadBoardData ex_env ''b1'' ex_world)) = set (db_subtasks ex_store)
   \<and> set (columns (loadBoardData ex_env ''b1'' ex_world)) = {c \<in> set (db_columns ex_store). c_boardId c = ''b1''}"
proof -
  have h: "load_completes ex_env ''b1'' (db ex_world)" by code_simp
  have d: "db ex_world = ex_store" and l: "db_log ex_world = []" by (simp_all add: ex_world_def)
  from loadBoardData_queries [of ex_env "''b1''" ex_world] h d l show ?thesis
    by (simp add: set_columns_list set_subtasks_list)
qed

section \<open>Creating tasks and subtasks\<close>

text \<open>
  Claim C6 (append to the end). \<open>createTask\<close> writes the new task with \<open>position\<close> equal to
  the number of cached tasks in the target column, and \<open>addSubtask\<close> writes the new subtask
  with \<open>position\<close> equal to the number of cached subtasks of the task.
\<close>

theorem append_positions:
  "(user w = Some u \<and> currentBoard w = Some b
      \<and> targetColumnId columnId (columns w) = Some tc \<and> tc \<noteq> [] \<longrightarrow>
      (\<exists>r. durable_writes (db_log (createTask e ttl columnId w)) =
               durable_writes (db_log w) @ [TasksCreate r]
           \<and> r_columnId r = tc
           \<and> r_position r = int (length (filter (\<lambda>t. t_columnId t = tc) (tasks w)))))
   \<and> (selectedTask w = Some task \<and> trim (d_newSubtaskTitle d) \<noteq> [] \<longrightarrow>
      (\<exists>st. durable_writes (db_log (snd (addSubtask e d w))) =
                durable_writes (db_log w) @ [SubtasksCreate st]
           \<and> s_taskId st = t_id task
           \<and> s_position st =
               int (length (filter (\<lambda>x. s_taskId x = t_id task) (subtasks w)))))"
  by (simp add: createTask_writes addSubtask_writes)

text \<open>
  Witness for C6: \<open>col_todo\<close> holds two tasks and \<open>t1\<close> two subtasks, at positions 0 and 1;
  the new task and the new subtask get position 2.
\<close>

theorem append_positions_witness:
  "user ex_world = Some ex_user \<and> currentBoard ex_world = Some ex_board
   \<and> targetColumnId (Some ''col_todo'') (columns ex_world) = Some ''col_todo'' \<and> ''col_todo'' \<noteq> []
   \<and> selectedTask ex_world = Some (ex_task ''t1'' ''col_todo'' 0 [''urgent'', ''q3''])
   \<and> trim (d_newSubtaskTitle ex_drawer) \<noteq> []
   \<and> map s_position (filter (\<lambda>x. s_taskId x = ''t1'') (subtasks ex_world)) = [0, 1]
   \<and> map t_position (filter (\<lambda>t. t_columnId t = ''col_todo'') (tasks ex_world)) = [0, 1]
   \<and> (\<exists>r. durable_writes (db_log (createTask ex_env ''T3'' (Some ''col_todo'') ex_world))
              = [TasksCreate r] \<and> r_position r = 2)
   \<and> (\<exists>st. durable_writes (db_log (snd (addSubtask ex_env ex_drawer ex_world)))
              = [SubtasksCreate st] \<and> s_position st = 2)"
proof -
  let ?T = "ex_task ''t1'' ''col_todo'' 0 [''urgent'', ''q3'']"
  have h1: "user ex_world = Some ex_user" and h2: "currentBoard ex_world = Some ex_board"
    and h5: "selectedTask ex_world = Some ?T"
    by (simp_all add: ex_world_def)
  have h3: "targetColumnId (Some ''col_todo'') (columns ex_world) = Some ''col_todo''"
    by code_simp
  have h4: "''col_todo'' \<noteq> []" by simp
  have h6: "trim (d_newSubtaskTitle ex_drawer) \<noteq> []" by code_simp
  have s: "map s_position (filter (\<lambda>x. s_taskId x = ''t1'') (subtasks ex_world)) = [0, 1]"
    by code_simp
  have t: "map t_position (filter (\<lambda>t. t_columnId t = ''col_todo'') (tasks ex_world)) = [0, 1]"
    by code_simp
  have l: "durable_writes (db_log ex_world) = []" by code_simp
  have i: "t_id ?T = ''t1''" by code_simp
  have n1: "int (length (filter (\<lambda>t. t_columnId t = ''col_todo'') (tasks ex_world))) = 2"
    by code_simp
  have n2: "int (length (filter (\<lambda>x. s_taskId x = ''t1'') (subtasks ex_world))) = 2"
    by code_simp
  from append_positions [of ex_world ex_user ex_board "Some ''col_todo''" "''col_todo''" ex_env
      "''T3''" ?T ex_drawer] h1 h2 h3 h4 h5 h6 l i n1 n2
  have "(\<exists>r. durable_writes (db_log (createTask ex_env ''T3'' (Some ''col_todo'') ex_world))
              = [TasksCreate r] \<and> r_position r = 2)
   \<and> (\<exists>st. durable_writes (db_log (snd (addSubtask ex_env ex_drawer ex_world)))
              = [SubtasksCreate st] \<and> s_position st = 2)"
    by auto
  with h1 h2 h3 h4 h5 h6 s t show ?thesis by simp
qed

section \<open>Tags\<close>

text \<open>
  Claim C7 (tag round trip). Decoding the encoding of a tag list gives the list back, and so
  an equal set; an absent and an empty encoding decode to the empty list. The encoding is
  the one \<open>handleSave\<close> writes.
\<close>

theorem tags_round_trip:
  "decode_tags (e\<lparr> JSON_parse := JSON_parse_array \<rparr>) (Some (JSON_stringify tags)) = Inr tags
   \<and> decode_tags e None = Inr [] \<and> decode_tags e (Some []) = Inr []
   \<and> (selectedTask w = Some task \<longrightarrow>
        (\<exists>p. durable_writes (db_log (snd (handleSave e d w))) =
                durable_writes (db_log w) @ [TasksUpdate (t_id task) p]
            \<and> p_tags p = Some (JSON_stringify (d_tags d))))"
  by (simp add: decode_tags_def JSON_round_trip JSON_stringify_nonempty handleSave_writes)

text \<open>Witness for C7: the tags \<open>urgent\<close> and \<open>q3\<close>.\<close>

theorem tags_round_trip_witness:
  "selectedTask ex_world = Some (ex_task ''t1'' ''col_todo'' 0 [''urgent'', ''q3''])
   \<and> (\<exists>p. durable_writes (db_log (snd (handleSave ex_env ex_drawer ex_world))) =
             [TasksUpdate ''t1'' p]
         \<and> p_tags p = Some (JSON_stringify [''urgent'', ''q3'']))
   \<and> decode_tags ex_env (Some (JSON_stringify [''urgent'', ''q3''])) = Inr [''urgent'', ''q3'']"
proof -
  let ?T = "ex_task ''t1'' ''col_todo'' 0 [''urgent'', ''q3'']"
  have h: "selectedTask ex_world = Some ?T" by (simp add: ex_world_def)
  have e: "ex_env\<lparr> JSON_parse := JSON_parse_array \<rparr> = ex_env" by (simp add: ex_env_def)
  have l: "durable_writes (db_log ex_world) = []" by code_simp
  have i: "t_id ?T = ''t1''" by code_simp
  have g: "d_tags ex_drawer = [''urgent'', ''q3'']" by (simp add: ex_drawer_def)
  from tags_round_trip [of ex_env "[''urgent'', ''q3'']" ex_world ?T ex_drawer] h e l i g
  show ?thesis by simp
qed

section \<open>Completion of subtasks\<close>

text \<open>
  Claim C10 (encoding of \<open>completed\<close>). \<open>toggleSubtask\<close> writes the number 1 when the box
  is checked and 0 when it is not, \<open>addSubtask\<close> writes \<open>false\<close>, and the card badge, the
  list progress, the drawer count and the drawer checkbox all count a subtask as completed
  exactly when \<open>Number(completed) > 0\<close>; so what \<open>toggleSubtask\<close> writes is read back as
  the state of the box, and a new subtask is read as not completed.
\<close>

theorem completion_encoding:
  "durable_writes (db_log (toggleSubtask e subtaskId checked w)) =
     durable_writes (db_log w) @ [SubtasksUpdate subtaskId (JNum (if checked then 1 else 0))]
   \<and> (selectedTask w = Some task \<and> trim (d_newSubtaskTitle d) \<noteq> [] \<longrightarrow>
        (\<exists>st. durable_writes (db_log (snd (addSubtask e d w))) =
                 durable_writes (db_log w) @ [SubtasksCreate st]
             \<and> s_completed st = JBool False))
   \<and> completedSubtasks subs = length (filter (\<lambda>st. 0 < Number (s_completed st)) subs)
   \<and> getSubtaskProgress subs taskId =
        (length (filter (\<lambda>st. 0 < Number (s_completed st)) (filter (\<lambda>st. s_taskId st = taskId) subs)),
         length (filter (\<lambda>st. s_taskId st = taskId) subs))
   \<and> drawer_completed_count subs = length (filter (\<lambda>st. 0 < Number (s_completed st)) subs)
   \<and> checkbox_checked x = (0 < Number (s_completed x))
   \<and> checkbox_checked (x\<lparr> s_completed := JNum (if checked then 1 else 0) \<rparr>) = checked
   \<and> \<not> checkbox_checked (x\<lparr> s_completed := JBool False \<rparr>)
   \<and> completedSubtasks [x\<lparr> s_completed := JNum (if checked then 1 else 0) \<rparr>] = (if checked then 1 else 0)
   \<and> completedSubtasks [x\<lparr> s_completed := JBool False \<rparr>] = 0"
  by (simp add: toggleSubtask_writes addSubtask_writes completedSubtasks_def
      getSubtaskProgress_def drawer_completed_count_def checkbox_checked_def Let_def)

text \<open>Witness for C10: toggling \<open>s2\<close> on and \<open>s1\<close> off, and the counts of the board.\<close>

theorem completion_encoding_witness:
  "selectedTask ex_world = Some (ex_task ''t1'' ''col_todo'' 0 [''urgent'', ''q3''])
   \<and> trim (d_newSubtaskTitle ex_drawer) \<noteq> []
   \<and> durable_writes (db_log (toggleSubtask ex_env ''s2'' True ex_world)) = [SubtasksUpdate ''s2'' (JNum 1)]
   \<and> durable_writes (db_log (toggleSubtask ex_env ''s1'' False ex_world)) = [SubtasksUpdate ''s1'' (JNum 0)]
   \<and> (\<exists>st. durable_writes (db_log (snd (addSubtask ex_env ex_drawer ex_world))) = [SubtasksCreate st]
             \<and> s_completed st = JBool False)
   \<and> completedSubtasks (subtasks ex_world) = 1
   \<and> getSubtaskProgress (subtasks ex_world) ''t1'' = (1, 2)"
proof -
  let ?T = "ex_task ''t1'' ''col_todo'' 0 [''urgent'', ''q3'']"
  have h1: "selectedTask ex_world = Some ?T" by (simp add: ex_world_def)
  have h2: "trim (d_newSubtaskTitle ex_drawer) \<noteq> []" by code_simp
  have l: "durable_writes (db_log ex_world) = []" by code_simp
  have c: "length (filter (\<lambda>st. 0 < Number (s_completed st)) (subtasks ex_world)) = 1"
    by code_simp
  have p: "(length (filter (\<lambda>st. 0 < Number (s_completed st))
               (filter (\<lambda>st. s_taskId st = ''t1'') (subtasks ex_world))),
            length (filter (\<lambda>st. s_taskId st = ''t1'') (subtasks ex_world))) = (1, 2)"
    by code_simp
  from completion_encoding [of ex_env "''s2''" True ex_world ?T ex_drawer "subtasks ex_world" "''t1''"]
    completion_encoding [of ex_env "''s1''" False ex_world ?T ex_drawer "subtasks ex_world" "''t1''"]
    h1 h2 l c p
  show ?thesis by simp
qed

end
